theory Spec2Isabelle
  imports Main
begin

section \<open>JavaScript values\<close>

text \<open>
  The values that cross the interfaces untyped: a \<open>sessionId\<close> argument (callers pass
  \<open>null\<close>, \<open>undefined\<close>, numbers and strings), the \<open>feedback\<close> object and the payload
  of an event. \<open>JDate t\<close> is a \<open>Date\<close> at millisecond \<open>t\<close> (in a payload: its ISO string).
\<close>

datatype jsval =
    JUndefined
  | JNull
  | JBool bool
  | JNum int
  | JStr string
  | JDate nat
  | JObj "(string \<times> jsval) list"

text \<open>JavaScript truthiness, as \<open>!x\<close>, \<open>x || y\<close> and \<open>x && y\<close> read it.\<close>

fun truthy :: "jsval \<Rightarrow> bool" where
  "truthy JUndefined = False"
| "truthy JNull = False"
| "truthy (JBool b) = b"
| "truthy (JNum n) = (n \<noteq> 0)"
| "truthy (JStr s) = (s \<noteq> [])"
| "truthy (JDate t) = True"
| "truthy (JObj kv) = True"

fun is_string :: "jsval \<Rightarrow> bool" where
  "is_string (JStr s) = True"
| "is_string v = False"

text \<open>\<open>a || b\<close> on an optional field of a typed object: absent, \<open>0\<close>, \<open>''\<close> and \<open>false\<close> fall through.\<close>

definition or_str :: "string option \<Rightarrow> string option \<Rightarrow> string option" where
  "or_str a b = (case a of None \<Rightarrow> b | Some s \<Rightarrow> (if s = [] then b else Some s))"

definition or_int :: "int option \<Rightarrow> int \<Rightarrow> int" where
  "or_int a d = (case a of None \<Rightarrow> d | Some n \<Rightarrow> (if n = 0 then d else n))"

definition or_bool :: "bool option \<Rightarrow> bool \<Rightarrow> bool" where
  "or_bool a d = (case a of None \<Rightarrow> d | Some b \<Rightarrow> (if b then True else d))"

definition str_or :: "string option \<Rightarrow> string \<Rightarrow> string" where
  "str_or a d = (case or_str a None of None \<Rightarrow> d | Some s \<Rightarrow> s)"

text \<open>Typed fields written into a payload; an absent field is \<open>undefined\<close>.\<close>

definition js_str :: "string option \<Rightarrow> jsval" where
  "js_str a = (case a of None \<Rightarrow> JUndefined | Some s \<Rightarrow> JStr s)"

definition js_num :: "int option \<Rightarrow> jsval" where
  "js_num a = (case a of None \<Rightarrow> JUndefined | Some n \<Rightarrow> JNum n)"

text \<open>Property lookup on a payload object (\<open>undefined\<close> for a missing key).\<close>

fun get_prop :: "jsval \<Rightarrow> string \<Rightarrow> jsval" where
  "get_prop (JObj kv) k = (case map_of kv k of None \<Rightarrow> JUndefined | Some v \<Rightarrow> v)"
| "get_prop v k = JUndefined"

text \<open>Decimal text of a number, for the template literals.\<close>

definition digit :: "nat \<Rightarrow> char" where
  "digit d = ''0123456789'' ! d"

function show_nat :: "nat \<Rightarrow> string" where
  "show_nat n = (if n < 10 then [digit n] else show_nat (n div 10) @ [digit (n mod 10)])"
  by pat_completeness auto
termination
  by (relation "measure id") auto

definition show_int :: "int \<Rightarrow> string" where
  "show_int i = (if i < 0 then CHR ''-'' # show_nat (nat (- i)) else show_nat (nat i))"

section \<open>Data model\<close>

text \<open>The objects the lifecycle events carry, with the fields the broadcaster reads.\<close>

record file_info =
  fi_originalName :: "string option"
  fi_name :: "string option"
  fi_size :: "int option"
  fi_mimetype :: "string option"
  fi_type :: "string option"
  fi_uploadedAt :: "string option"

record extraction_result =
  er_text :: "string option"
  er_textLength :: "int option"
  er_pageCount :: "int option"
  er_hasText :: "bool option"

record extraction_info =
  ei_textLength :: int
  ei_pageCount :: int
  ei_hasText :: bool

record stream_metadata =
  md_chunkIndex :: "int option"
  md_isComplete :: "bool option"
  md_section :: "string option"

record error_options =
  opt_code :: "string option"
  opt_retryable :: "bool option"
  opt_stage :: "string option"
  opt_retryCount :: "int option"

text \<open>The \<open>error\<close> argument of \<open>broadcastError\<close>: an \<open>Error\<close> (message, optional code) or a string.\<close>

datatype js_error = ErrorObj string "string option" | ErrorStr string

text \<open>
  One session. Times are milliseconds. A field that is \<open>null\<close> or not set is \<open>None\<close>
  (\<open>JUndefined\<close> for \<open>feedback\<close>).
\<close>

record session =
  sessionId :: string
  status :: string
  createdAt :: nat
  updatedAt :: nat
  expiresAt :: "nat option"
  retryCount :: "int option"
  fileInfo :: "file_info option"
  uploadedAt :: "nat option"
  extractedText :: "string option"
  extractionInfo :: "extraction_info option"
  streamingContent :: "string option"
  lastStreamUpdate :: "nat option"
  feedback :: jsval
  completedAt :: "nat option"
  lastError :: "string option"
  errorCode :: "string option"

text \<open>
  One subscriber channel (the response object \<open>res\<close>): whether a write to it succeeds,
  the status line sent, what has been written to it, and whether it was ended.
\<close>

type_synonym sse_message = "string \<times> jsval"

record channel =
  ch_writable :: bool
  ch_head :: "nat option"
  ch_written :: "sse_message list"
  ch_ended :: bool

text \<open>
  The process-wide state: the session store's map, the connection registry's map from a
  session id to its channels (a set, kept as a list in insertion order), and the channel
  objects themselves, which the registry and the routes share by reference.
\<close>

record system =
  sessions :: "string \<rightharpoonup> session"
  connections :: "jsval \<rightharpoonup> nat list"
  channels :: "nat \<rightharpoonup> channel"

datatype js_exn = WriteError | TypeError

section \<open>Session store\<close>

text \<open>
  Modelled from the spec: the session store (\<open>services/sessionManager.js\<close>), of which
  only the tests and the callers are available. The definitions of this section follow
  section 4.1 of the specification and \<open>sessionManager.test.js\<close>.
\<close>

text \<open>
  Modelled from the spec: an id is usable when it is a non-empty string
  (\<open>getSession(null)\<close>, \<open>getSession('')\<close>, \<open>getSession(123)\<close> are \<open>null\<close>).
\<close>

definition valid_id :: "jsval \<Rightarrow> string option" where
  "valid_id v = (case v of JStr s \<Rightarrow> (if s = [] then None else Some s) | _ \<Rightarrow> None)"

text \<open>
  Modelled from the spec: \<open>get\<close> returns a copy of the session; absent when the id is not a
  non-empty string, the session does not exist, \<open>expiresAt\<close> is missing, or
  \<open>now > expiresAt\<close>. It is a read: the store is not changed.
\<close>

definition getSession :: "system \<Rightarrow> nat \<Rightarrow> jsval \<Rightarrow> session option" where
  "getSession st now v =
     (case valid_id v of
        None \<Rightarrow> None
      | Some k \<Rightarrow>
          (case sessions st k of
             None \<Rightarrow> None
           | Some s \<Rightarrow>
               (case expiresAt s of
                  None \<Rightarrow> None
                | Some e \<Rightarrow> (if now > e then None else Some s))))"

text \<open>
  Modelled from the spec: \<open>update\<close> merges the given fields into the stored session, keeps
  its \<open>sessionId\<close>, bumps \<open>updatedAt\<close>, and returns whether it did; it fails, without
  throwing, when the id is invalid or no session is stored under it; an expiry check is
  not part of its description, and it makes none here. The merged fields are given as the
  record update they amount to.
\<close>

definition updateSession ::
  "nat \<Rightarrow> jsval \<Rightarrow> (session \<Rightarrow> session) \<Rightarrow> system \<Rightarrow> bool \<times> system" where
  "updateSession now v upd st =
     (case valid_id v of
        None \<Rightarrow> (False, st)
      | Some k \<Rightarrow>
          (case sessions st k of
             None \<Rightarrow> (False, st)
           | Some s \<Rightarrow>
               (True, st\<lparr>sessions := (sessions st)
                  (k \<mapsto> (upd s)\<lparr>sessionId := sessionId s, updatedAt := now\<rparr>)\<rparr>)))"

text \<open>Modelled from the spec: \<open>updateStatus\<close> is \<open>update\<close> with the one field \<open>status\<close>.\<close>

definition updateStatus :: "nat \<Rightarrow> jsval \<Rightarrow> string \<Rightarrow> system \<Rightarrow> bool \<times> system" where
  "updateStatus now v new st = updateSession now v (\<lambda>s. s\<lparr>status := new\<rparr>) st"

text \<open>
  Modelled from the spec: \<open>exists\<close>; an expired session is indistinguishable from a
  non-existent one for it, so it answers as \<open>get\<close> does.
\<close>

definition sessionExists :: "system \<Rightarrow> nat \<Rightarrow> jsval \<Rightarrow> bool" where
  "sessionExists st now v = (getSession st now v \<noteq> None)"

text \<open>
  Modelled from the spec: \<open>extend\<close> pushes \<open>expiresAt\<close> of a session that \<open>get\<close> returns
  forward by \<open>extra\<close> milliseconds.
\<close>

definition extendSession :: "nat \<Rightarrow> jsval \<Rightarrow> nat \<Rightarrow> system \<Rightarrow> bool \<times> system" where
  "extendSession now v extra st =
     (case (valid_id v, getSession st now v) of
        (Some k, Some s) \<Rightarrow>
          (True, st\<lparr>sessions := (sessions st)
             (k \<mapsto> s\<lparr>expiresAt := map_option (\<lambda>e. e + extra) (expiresAt s)\<rparr>)\<rparr>)
      | _ \<Rightarrow> (False, st))"

text \<open>
  Modelled from the spec: \<open>create\<close>, called with no initial data, stores a session under
  the fresh id \<open>k\<close> with status \<open>created\<close>, \<open>retryCount\<close> 0, both timestamps \<open>now\<close> and
  \<open>expiresAt = now + ttl\<close>.
\<close>

definition new_session :: "string \<Rightarrow> nat \<Rightarrow> nat \<Rightarrow> session" where
  "new_session k now ttl =
     \<lparr>sessionId = k, status = ''created'', createdAt = now, updatedAt = now,
      expiresAt = Some (now + ttl), retryCount = Some 0, fileInfo = None,
      uploadedAt = None, extractedText = None, extractionInfo = None,
      streamingContent = None, lastStreamUpdate = None, feedback = JUndefined,
      completedAt = None, lastError = None, errorCode = None\<rparr>"

definition createSession :: "string \<Rightarrow> nat \<Rightarrow> nat \<Rightarrow> system \<Rightarrow> system" where
  "createSession k now ttl st = st\<lparr>sessions := (sessions st)(k \<mapsto> new_session k now ttl)\<rparr>"

text \<open>
  Modelled from the spec: \<open>delete\<close> removes the session stored under the id and returns
  whether there was one.
\<close>

definition deleteSession :: "jsval \<Rightarrow> system \<Rightarrow> bool \<times> system" where
  "deleteSession v st =
     (case valid_id v of
        None \<Rightarrow> (False, st)
      | Some k \<Rightarrow>
          (case sessions st k of
             None \<Rightarrow> (False, st)
           | Some s \<Rightarrow> (True, st\<lparr>sessions := (sessions st)(k := None)\<rparr>)))"

section \<open>Connection registry\<close>

text \<open>
  Modelled from the spec: the connection registry (\<open>services/sseManager.js\<close>), of which
  only the tests and the callers are available. The definitions of this section follow
  section 4.2 of the specification.
\<close>

text \<open>
  Modelled from the spec: the wire format of one event, \<open>event: <name>\<close>, \<open>data: <JSON>\<close>
  and a blank line; the pair stands for that text.
\<close>

definition formatSSE :: "string \<Rightarrow> jsval \<Rightarrow> sse_message" where
  "formatSSE event data = (event, data)"

text \<open>
  Modelled from the spec: a write to a channel fails (throws) when the channel is closed
  or ended, and appends the message otherwise.
\<close>

definition res_write :: "channel \<Rightarrow> sse_message \<Rightarrow> js_exn + channel" where
  "res_write ch m =
     (if ch_writable ch \<and> \<not> ch_ended ch
      then Inr (ch\<lparr>ch_written := ch_written ch @ [m]\<rparr>)
      else Inl WriteError)"

definition res_end :: "channel \<Rightarrow> channel" where
  "res_end ch = ch\<lparr>ch_ended := True\<rparr>"

text \<open>Modelled from the spec: the write of one message to the channel object \<open>c\<close>.\<close>

definition send :: "nat \<Rightarrow> sse_message \<Rightarrow> system \<Rightarrow> js_exn + system" where
  "send c m st =
     (case channels st c of
        None \<Rightarrow> Inl TypeError
      | Some ch \<Rightarrow>
          (case res_write ch m of
             Inl e \<Rightarrow> Inl e
           | Inr ch' \<Rightarrow> Inr (st\<lparr>channels := (channels st)(c \<mapsto> ch')\<rparr>)))"

text \<open>
  Modelled from the spec: \<open>removeConnection\<close> takes one channel out of the session's set
  and drops the session's key when the set becomes empty; the session is untouched.
\<close>

definition removeConnection :: "jsval \<Rightarrow> nat \<Rightarrow> system \<Rightarrow> system" where
  "removeConnection sid c st =
     (case connections st sid of
        None \<Rightarrow> st
      | Some cs \<Rightarrow>
          (if removeAll c cs = []
           then st\<lparr>connections := (connections st)(sid := None)\<rparr>
           else st\<lparr>connections := (connections st)(sid \<mapsto> removeAll c cs)\<rparr>))"

text \<open>
  Modelled from the spec: \<open>createConnection\<close> performs the handshake (status 200, framing
  headers, flush) and registers the channel under the session id; it returns false, and
  registers nothing, when the handshake fails because the channel is closed.
\<close>

definition createConnection :: "jsval \<Rightarrow> nat \<Rightarrow> system \<Rightarrow> bool \<times> system" where
  "createConnection sid c st =
     (case channels st c of
        None \<Rightarrow> (False, st)
      | Some ch \<Rightarrow>
          (if ch_writable ch \<and> \<not> ch_ended ch
           then (True, st\<lparr>
                   connections := (connections st)(sid \<mapsto>
                     (case connections st sid of
                        None \<Rightarrow> [c]
                      | Some cs \<Rightarrow> (if c \<in> set cs then cs else cs @ [c]))),
                   channels := (channels st)(c \<mapsto> ch\<lparr>ch_head := Some 200\<rparr>)\<rparr>)
           else (False, st)))"

text \<open>
  Modelled from the spec: the delivery loop of \<open>broadcastToSession\<close>. The message is
  written to every channel registered for the session; a write that fails is caught, the
  failing channel is removed, and the loop goes on with the next channel.
\<close>

fun deliver :: "jsval \<Rightarrow> sse_message \<Rightarrow> nat list \<Rightarrow> system \<Rightarrow> js_exn + system" where
  "deliver sid m [] st = Inr st"
| "deliver sid m (c # cs) st =
     (case send c m st of
        Inr st' \<Rightarrow> deliver sid m cs st'
      | Inl e \<Rightarrow> deliver sid m cs (removeConnection sid c st))"

definition broadcastToSession :: "jsval \<Rightarrow> string \<Rightarrow> jsval \<Rightarrow> system \<Rightarrow> js_exn + system" where
  "broadcastToSession sid event data st =
     (case connections st sid of
        None \<Rightarrow> Inr st
      | Some cs \<Rightarrow> deliver sid (formatSSE event data) cs st)"

section \<open>Event broadcaster\<close>

text \<open>
  \<open>EventBroadcaster\<close>, method by method: the payload is built, the session store is
  updated (the boolean the store returns is dropped, as the source drops it), and the
  payload is broadcast under the event name that \<open>this.eventTypes\<close> gives the method.
  \<open>now\<close> is the clock read by \<open>new Date()\<close>. A parameter with a default value is an
  option, \<open>None\<close> when the caller leaves it out.
\<close>

definition empty_file_info :: file_info where
  "empty_file_info =
     \<lparr>fi_originalName = None, fi_name = None, fi_size = None, fi_mimetype = None,
      fi_type = None, fi_uploadedAt = None\<rparr>"

definition empty_extraction_result :: extraction_result where
  "empty_extraction_result =
     \<lparr>er_text = None, er_textLength = None, er_pageCount = None, er_hasText = None\<rparr>"

definition empty_metadata :: stream_metadata where
  "empty_metadata = \<lparr>md_chunkIndex = None, md_isComplete = None, md_section = None\<rparr>"

definition empty_options :: error_options where
  "empty_options =
     \<lparr>opt_code = None, opt_retryable = None, opt_stage = None, opt_retryCount = None\<rparr>"

definition uploadStarted_data :: "file_info \<Rightarrow> jsval" where
  "uploadStarted_data fi =
     JObj [(''status'', JStr ''uploading''),
           (''message'', JStr ''File upload started''),
           (''fileInfo'', JObj
              [(''name'', js_str (or_str (fi_originalName fi) (fi_name fi))),
               (''size'', js_num (fi_size fi)),
               (''type'', js_str (or_str (fi_mimetype fi) (fi_type fi)))])]"

definition broadcastUploadStarted ::
  "nat \<Rightarrow> jsval \<Rightarrow> file_info option \<Rightarrow> system \<Rightarrow> js_exn + system" where
  "broadcastUploadStarted now sid fileInfo_arg st =
     (let fi = (case fileInfo_arg of None \<Rightarrow> empty_file_info | Some f \<Rightarrow> f);
          eventData = uploadStarted_data fi;
          st1 = snd (updateStatus now sid ''uploading'' st);
          st2 = snd (updateSession now sid (\<lambda>s. s\<lparr>fileInfo := Some fi\<rparr>) st1)
      in broadcastToSession sid ''upload.started'' eventData st2)"

definition uploadCompleted_data :: "nat \<Rightarrow> file_info \<Rightarrow> jsval" where
  "uploadCompleted_data now fi =
     JObj [(''status'', JStr ''uploaded''),
           (''message'', JStr ''File uploaded successfully''),
           (''fileInfo'', JObj
              [(''name'', js_str (or_str (fi_originalName fi) (fi_name fi))),
               (''size'', js_num (fi_size fi)),
               (''type'', js_str (or_str (fi_mimetype fi) (fi_type fi))),
               (''uploadedAt'',
                  (case or_str (fi_uploadedAt fi) None of
                     None \<Rightarrow> JDate now
                   | Some t \<Rightarrow> JStr t))])]"

definition broadcastUploadCompleted ::
  "nat \<Rightarrow> jsval \<Rightarrow> file_info option \<Rightarrow> system \<Rightarrow> js_exn + system" where
  "broadcastUploadCompleted now sid fileInfo_arg st =
     (let fi = (case fileInfo_arg of None \<Rightarrow> empty_file_info | Some f \<Rightarrow> f);
          eventData = uploadCompleted_data now fi;
          st1 = snd (updateStatus now sid ''uploaded'' st);
          st2 = snd (updateSession now sid
                  (\<lambda>s. s\<lparr>fileInfo := Some fi, uploadedAt := Some now\<rparr>) st1)
      in broadcastToSession sid ''upload.completed'' eventData st2)"

definition extractionStarted_data :: jsval where
  "extractionStarted_data =
     JObj [(''status'', JStr ''extracting''),
           (''message'', JStr ''Extracting text from PDF...''),
           (''stage'', JStr ''extraction'')]"

definition broadcastExtractionStarted :: "nat \<Rightarrow> jsval \<Rightarrow> system \<Rightarrow> js_exn + system" where
  "broadcastExtractionStarted now sid st =
     (let eventData = extractionStarted_data;
          st1 = snd (updateStatus now sid ''extracting'' st)
      in broadcastToSession sid ''extraction.started'' eventData st1)"

definition extraction_info_of :: "extraction_result \<Rightarrow> extraction_info" where
  "extraction_info_of er =
     \<lparr>ei_textLength = or_int (er_textLength er) 0,
      ei_pageCount = or_int (er_pageCount er) 0,
      ei_hasText = or_bool (er_hasText er) False\<rparr>"

definition extractionCompleted_data :: "extraction_info \<Rightarrow> jsval" where
  "extractionCompleted_data ei =
     JObj [(''status'', JStr ''extracted''),
           (''message'', JStr ''Text extraction completed''),
           (''stage'', JStr ''extraction''),
           (''extractionInfo'', JObj
              [(''textLength'', JNum (ei_textLength ei)),
               (''pageCount'', JNum (ei_pageCount ei)),
               (''hasText'', JBool (ei_hasText ei))])]"

definition broadcastExtractionCompleted ::
  "nat \<Rightarrow> jsval \<Rightarrow> extraction_result option \<Rightarrow> system \<Rightarrow> js_exn + system" where
  "broadcastExtractionCompleted now sid extractionResult_arg st =
     (let er = (case extractionResult_arg of None \<Rightarrow> empty_extraction_result | Some r \<Rightarrow> r);
          ei = extraction_info_of er;
          eventData = extractionCompleted_data ei;
          st1 = snd (updateStatus now sid ''extracted'' st);
          st2 = snd (updateSession now sid
                  (\<lambda>s. s\<lparr>extractedText := er_text er, extractionInfo := Some ei\<rparr>) st1)
      in broadcastToSession sid ''extraction.completed'' eventData st2)"

definition analysisStarted_data :: jsval where
  "analysisStarted_data =
     JObj [(''status'', JStr ''analyzing''),
           (''message'', JStr ''AI analysis started...''),
           (''stage'', JStr ''analysis'')]"

definition broadcastAnalysisStarted :: "nat \<Rightarrow> jsval \<Rightarrow> system \<Rightarrow> js_exn + system" where
  "broadcastAnalysisStarted now sid st =
     (let eventData = analysisStarted_data;
          st1 = snd (updateStatus now sid ''analyzing'' st)
      in broadcastToSession sid ''analysis.started'' eventData st1)"

definition analysisStreaming_data :: "string \<Rightarrow> stream_metadata \<Rightarrow> jsval" where
  "analysisStreaming_data content md =
     JObj [(''status'', JStr ''streaming''),
           (''message'', JStr ''Receiving AI feedback...''),
           (''stage'', JStr ''analysis''),
           (''content'', JStr content),
           (''metadata'', JObj
              [(''chunkIndex'', JNum (or_int (md_chunkIndex md) 0)),
               (''isComplete'', JBool (or_bool (md_isComplete md) False)),
               (''section'', JStr (str_or (md_section md) ''general''))])]"

definition broadcastAnalysisStreaming ::
  "nat \<Rightarrow> jsval \<Rightarrow> string \<Rightarrow> stream_metadata option \<Rightarrow> system \<Rightarrow> js_exn + system" where
  "broadcastAnalysisStreaming now sid content metadata_arg st =
     (let md = (case metadata_arg of None \<Rightarrow> empty_metadata | Some m \<Rightarrow> m);
          eventData = analysisStreaming_data content md;
          st1 = (case getSession st now sid of
                   None \<Rightarrow> st
                 | Some session \<Rightarrow>
                     (let currentContent = str_or (streamingContent session) []
                      in snd (updateSession now sid
                           (\<lambda>s. s\<lparr>streamingContent := Some (currentContent @ content),
                                  lastStreamUpdate := Some now\<rparr>) st)))
      in broadcastToSession sid ''analysis.streaming'' eventData st1)"

definition analysisCompleted_data :: "nat \<Rightarrow> jsval \<Rightarrow> jsval" where
  "analysisCompleted_data now fb =
     JObj [(''status'', JStr ''completed''),
           (''message'', JStr ''AI analysis completed successfully''),
           (''stage'', JStr ''analysis''),
           (''feedback'', fb),
           (''completedAt'', JDate now)]"

definition broadcastAnalysisCompleted ::
  "nat \<Rightarrow> jsval \<Rightarrow> jsval \<Rightarrow> system \<Rightarrow> js_exn + system" where
  "broadcastAnalysisCompleted now sid feedback_arg st =
     (let fb = (if feedback_arg = JUndefined then JObj [] else feedback_arg);
          eventData = analysisCompleted_data now fb;
          st1 = snd (updateStatus now sid ''completed'' st);
          st2 = snd (updateSession now sid
                  (\<lambda>s. s\<lparr>feedback := fb, completedAt := Some now,
                         streamingContent := None\<rparr>) st1)
      in broadcastToSession sid ''analysis.completed'' eventData st2)"

definition error_message :: "js_error \<Rightarrow> string" where
  "error_message error = (case error of ErrorObj m c \<Rightarrow> m | ErrorStr m \<Rightarrow> m)"

definition error_code :: "js_error \<Rightarrow> string option" where
  "error_code error = (case error of ErrorObj m c \<Rightarrow> c | ErrorStr m \<Rightarrow> None)"

definition errorOccurred_data :: "string \<Rightarrow> string \<Rightarrow> error_options \<Rightarrow> jsval" where
  "errorOccurred_data errorMessage errCode opts =
     JObj [(''status'', JStr ''error''),
           (''message'', JStr errorMessage),
           (''error'', JObj
              [(''code'', JStr errCode),
               (''message'', JStr errorMessage),
               (''retryable'', JBool (opt_retryable opts \<noteq> Some False)),
               (''stage'', JStr (str_or (opt_stage opts) ''unknown''))]),
           (''retryCount'', JNum (or_int (opt_retryCount opts) 0))]"

definition broadcastError ::
  "nat \<Rightarrow> jsval \<Rightarrow> js_error \<Rightarrow> error_options option \<Rightarrow> system \<Rightarrow> js_exn + system" where
  "broadcastError now sid error options_arg st =
     (let opts = (case options_arg of None \<Rightarrow> empty_options | Some given \<Rightarrow> given);
          errorMessage = error_message error;
          errCode = str_or (or_str (error_code error) (opt_code opts)) ''UNKNOWN_ERROR'';
          eventData = errorOccurred_data errorMessage errCode opts;
          st1 = snd (updateStatus now sid ''error'' st);
          st2 = snd (updateSession now sid
                  (\<lambda>s. s\<lparr>lastError := Some errorMessage, errorCode := Some errCode,
                         retryCount := Some (or_int (opt_retryCount opts) 0)\<rparr>) st1)
      in broadcastToSession sid ''error.occurred'' eventData st2)"

definition retryStarted_data :: "int \<Rightarrow> string \<Rightarrow> jsval" where
  "retryStarted_data n stage =
     JObj [(''status'', JStr ''retrying''),
           (''message'',
              JStr (''Retrying '' @ stage @ ''... (Attempt '' @ show_int n @ '')'')),
           (''retryInfo'', JObj
              [(''attempt'', JNum n), (''stage'', JStr stage), (''maxAttempts'', JNum 3)])]"

definition broadcastRetryStarted ::
  "nat \<Rightarrow> jsval \<Rightarrow> int \<Rightarrow> string option \<Rightarrow> system \<Rightarrow> js_exn + system" where
  "broadcastRetryStarted now sid n stage_arg st =
     (let stage = (case stage_arg of None \<Rightarrow> ''analysis'' | Some g \<Rightarrow> g);
          eventData = retryStarted_data n stage;
          st1 = snd (updateSession now sid
                  (\<lambda>s. s\<lparr>retryCount := Some n, status := ''retrying''\<rparr>) st)
      in broadcastToSession sid ''retry.started'' eventData st1)"

text \<open>The nine lifecycle methods as one call, with the arguments after \<open>sessionId\<close>.\<close>

datatype lifecycle_call =
    UploadStarted "file_info option"
  | UploadCompleted "file_info option"
  | ExtractionStarted
  | ExtractionCompleted "extraction_result option"
  | AnalysisStarted
  | AnalysisStreaming string "stream_metadata option"
  | AnalysisCompleted jsval
  | ErrorOccurred js_error "error_options option"
  | RetryStarted int "string option"

fun broadcast :: "nat \<Rightarrow> jsval \<Rightarrow> lifecycle_call \<Rightarrow> system \<Rightarrow> js_exn + system" where
  "broadcast now sid (UploadStarted fi) st = broadcastUploadStarted now sid fi st"
| "broadcast now sid (UploadCompleted fi) st = broadcastUploadCompleted now sid fi st"
| "broadcast now sid ExtractionStarted st = broadcastExtractionStarted now sid st"
| "broadcast now sid (ExtractionCompleted er) st = broadcastExtractionCompleted now sid er st"
| "broadcast now sid AnalysisStarted st = broadcastAnalysisStarted now sid st"
| "broadcast now sid (AnalysisStreaming c md) st = broadcastAnalysisStreaming now sid c md st"
| "broadcast now sid (AnalysisCompleted fb) st = broadcastAnalysisCompleted now sid fb st"
| "broadcast now sid (ErrorOccurred e opts) st = broadcastError now sid e opts st"
| "broadcast now sid (RetryStarted n stage) st = broadcastRetryStarted now sid n stage st"

section \<open>Routes\<close>

text \<open>
  The handlers of \<open>routes/sse.js\<close>. A JSON reply is \<open>Response status body\<close>. The header
  writes of the transport (\<open>setHeader\<close>, \<open>flushHeaders\<close>) are not part of the state.
\<close>

datatype response = Response nat jsval

definition allowedOrigins :: "string list" where
  "allowedOrigins =
     [''http://localhost:5173'',
      ''https://extraordinary-dieffenbachia-757a4c.netlify.app'']"

text \<open>\<open>allowedOrigins.includes(origin)\<close>; a request without the header has no origin.\<close>

definition origin_allowed :: "string option \<Rightarrow> bool" where
  "origin_allowed origin =
     (case origin of None \<Rightarrow> False | Some orig \<Rightarrow> orig \<in> set allowedOrigins)"

definition json_error :: "nat \<Rightarrow> string \<Rightarrow> string \<Rightarrow> response" where
  "json_error code msg c = Response code (JObj [(''error'', JStr msg), (''code'', JStr c)])"

text \<open>\<open>POST /events/:sessionId/retry\<close>.\<close>

definition retry_route :: "nat \<Rightarrow> jsval \<Rightarrow> system \<Rightarrow> js_exn + (response \<times> system)" where
  "retry_route now sid st =
     (if \<not> truthy sid \<or> \<not> is_string sid
      then Inr (json_error 400 ''Invalid session ID'' ''INVALID_SESSION_ID'', st)
      else
        (case getSession st now sid of
           None \<Rightarrow> Inr (json_error 404 ''Session not found'' ''SESSION_NOT_FOUND'', st)
         | Some session \<Rightarrow>
             (if status session \<noteq> ''error''
              then Inr (json_error 400 ''Session is not in error state''
                          ''INVALID_SESSION_STATE'', st)
              else
                (let newRetryCount = or_int (retryCount session) 0 + 1 in
                   if newRetryCount > 3
                   then Inr (json_error 400 ''Maximum retry attempts exceeded''
                               ''MAX_RETRIES_EXCEEDED'', st)
                   else
                     (let st1 = snd (updateSession now sid
                                  (\<lambda>s. s\<lparr>status := ''retrying'',
                                         retryCount := Some newRetryCount,
                                         lastError := None\<rparr>) st)
                      in case broadcastRetryStarted now sid newRetryCount None st1 of
                           Inl e \<Rightarrow> Inl e
                         | Inr st2 \<Rightarrow>
                             Inr (Response 200
                                    (JObj [(''success'', JBool True),
                                           (''message'', JStr ''Retry initiated''),
                                           (''sessionId'', sid),
                                           (''retryCount'', JNum newRetryCount)]),
                                  st2))))))"

text \<open>
  The handler's own \<open>res.write\<close> of an error event followed by \<open>res.end()\<close>: the response
  object is the channel \<open>res\<close>.
\<close>

definition write_error_and_end ::
  "nat \<Rightarrow> string \<Rightarrow> system \<Rightarrow> js_exn + (response option \<times> system)" where
  "write_error_and_end res msg st =
     (case send res (formatSSE ''error'' (JObj [(''error'', JStr msg)])) st of
        Inl e \<Rightarrow> Inl e
      | Inr st' \<Rightarrow>
          Inr (None, st'\<lparr>channels :=
                 (case channels st' res of
                    None \<Rightarrow> channels st'
                  | Some ch \<Rightarrow> (channels st')(res \<mapsto> res_end ch))\<rparr>))"

text \<open>The snapshot the handler replays to a new subscriber.\<close>

definition completed_snapshot :: "nat \<Rightarrow> session \<Rightarrow> jsval" where
  "completed_snapshot now session =
     JObj [(''status'', JStr ''completed''),
           (''message'', JStr ''Analysis completed successfully''),
           (''stage'', JStr ''analysis''),
           (''feedback'', feedback session),
           (''completedAt'',
              (case completedAt session of None \<Rightarrow> JDate now | Some t \<Rightarrow> JDate t))]"

definition status_snapshot :: "session \<Rightarrow> jsval" where
  "status_snapshot session =
     JObj [(''status'', JStr (status session)),
           (''message'', JStr (''Current status: '' @ status session)),
           (''sessionData'', JObj
              [(''sessionId'', JStr (sessionId session)),
               (''status'', JStr (status session)),
               (''createdAt'', JDate (createdAt session)),
               (''updatedAt'', JDate (updatedAt session))])]"

text \<open>
  \<open>GET /events/:sessionId\<close>: \<open>origin\<close> is the request's \<open>Origin\<close> header, \<open>res\<close> the
  response object, \<open>extra\<close> the default extension of \<open>extendSession\<close>. The result is the JSON
  reply, or \<open>None\<close> when the reply is the event stream.
\<close>

definition events_route ::
  "nat \<Rightarrow> nat \<Rightarrow> string option \<Rightarrow> jsval \<Rightarrow> nat \<Rightarrow> system
     \<Rightarrow> js_exn + (response option \<times> system)" where
  "events_route now extra origin sid res st =
     (if \<not> origin_allowed origin
      then Inr (Some (json_error 403 ''CORS Error: Origin not allowed'' ''CORS_NOT_ALLOWED''), st)
      else if \<not> truthy sid \<or> \<not> is_string sid
      then write_error_and_end res ''Invalid session ID'' st
      else
        (case getSession st now sid of
           None \<Rightarrow> write_error_and_end res ''Session not found'' st
         | Some session \<Rightarrow>
             (case createConnection sid res st of
                (False, st1) \<Rightarrow> write_error_and_end res ''SSE connection failed'' st1
              | (True, st1) \<Rightarrow>
                  (case (if status session = ''completed'' \<and> truthy (feedback session)
                         then broadcastToSession sid ''analysis.completed''
                                (completed_snapshot now session) st1
                         else broadcastToSession sid ''session.status''
                                (status_snapshot session) st1) of
                     Inl e \<Rightarrow> Inl e
                   | Inr st2 \<Rightarrow> Inr (None, snd (extendSession now sid extra st2))))))"

section \<open>Observations and reachable states\<close>

text \<open>The session stored under \<open>k\<close> after a call, when the call returned.\<close>

definition session_after :: "js_exn + system \<Rightarrow> string \<Rightarrow> session option" where
  "session_after r k = (case r of Inl e \<Rightarrow> None | Inr st \<Rightarrow> sessions st k)"

text \<open>The channels registered for a session id.\<close>

definition registered :: "system \<Rightarrow> jsval \<Rightarrow> nat set" where
  "registered st sid = (case connections st sid of None \<Rightarrow> {} | Some cs \<Rightarrow> set cs)"

text \<open>Whether a write to the channel object \<open>r\<close> succeeds.\<close>

definition accepts_writes :: "system \<Rightarrow> nat \<Rightarrow> bool" where
  "accepts_writes st r =
     (case channels st r of None \<Rightarrow> False | Some ch \<Rightarrow> ch_writable ch \<and> \<not> ch_ended ch)"

text \<open>
  What a client and the registry see of a subscription request: whether the handler
  threw, its reply, the registrations and the channels. The session store is left out.
\<close>

definition client_view ::
  "js_exn + (response option \<times> system)
     \<Rightarrow> js_exn + (response option \<times> (jsval \<rightharpoonup> nat list) \<times> (nat \<rightharpoonup> channel))" where
  "client_view r =
     (case r of
        Inl e \<Rightarrow> Inl e
      | Inr (reply, st) \<Rightarrow> Inr (reply, connections st, channels st))"

text \<open>
  No session is stored under the id: the id is not a usable one, or the store has no entry
  for it.
\<close>

definition session_missing :: "system \<Rightarrow> jsval \<Rightarrow> bool" where
  "session_missing st sid = (case valid_id sid of None \<Rightarrow> True | Some k \<Rightarrow> sessions st k = None)"

text \<open>No stored session has a \<open>retryCount\<close> above the ceiling of 3.\<close>

definition retry_ceiling :: "system \<Rightarrow> bool" where
  "retry_ceiling st =
     (\<forall>k s n. sessions st k = Some s \<longrightarrow> retryCount s = Some n \<longrightarrow> n \<le> 3)"

text \<open>
  A lifecycle call that carries a retry count carries one within the ceiling:
  \<open>broadcastRetryStarted\<close>'s \<open>retryCount\<close>, \<open>broadcastError\<close>'s \<open>options.retryCount\<close>.
\<close>

fun within_ceiling :: "lifecycle_call \<Rightarrow> bool" where
  "within_ceiling (RetryStarted n stage) = (n \<le> 3)"
| "within_ceiling (ErrorOccurred e (Some opts)) =
     (case opt_retryCount opts of None \<Rightarrow> True | Some n \<Rightarrow> n \<le> 3)"
| "within_ceiling c = True"

definition empty_system :: system where
  "empty_system = \<lparr>sessions = Map.empty, connections = Map.empty, channels = Map.empty\<rparr>"

text \<open>
  The states the system reaches from the empty one when its callers keep to the ceiling:
  sessions are created under fresh ids (with no initial data), clients open channels and
  subscribe, the retry endpoint is called, and the broadcaster's methods are called with a
  retry count of at most 3.
\<close>

inductive reachable :: "system \<Rightarrow> bool" where
  r_init: "reachable empty_system"
| r_create: "reachable st \<Longrightarrow> sessions st k = None \<Longrightarrow> reachable (createSession k now ttl st)"
| r_open: "reachable st \<Longrightarrow> channels st r = None \<Longrightarrow>
     reachable (st\<lparr>channels := (channels st)(r \<mapsto> ch)\<rparr>)"
| r_subscribe: "reachable st \<Longrightarrow> events_route now extra origin sid res st = Inr (reply, st') \<Longrightarrow>
     reachable st'"
| r_retry: "reachable st \<Longrightarrow> retry_route now sid st = Inr (rsp, st') \<Longrightarrow> reachable st'"
| r_broadcast: "reachable st \<Longrightarrow> within_ceiling c \<Longrightarrow> broadcast now sid c st = Inr st' \<Longrightarrow>
     reachable st'"

section \<open>Example states\<close>

definition open_channel :: channel where
  "open_channel = \<lparr>ch_writable = True, ch_head = None, ch_written = [], ch_ended = False\<rparr>"

definition closed_channel :: channel where
  "closed_channel = \<lparr>ch_writable = False, ch_head = None, ch_written = [], ch_ended = False\<rparr>"

text \<open>A session created at time 0 that expires at time 1000.\<close>

definition fresh_session :: session where
  "fresh_session = new_session ''s1'' 0 1000"

definition fresh_store :: system where
  "fresh_store = createSession ''s1'' 0 1000 empty_system"

text \<open>The same session after a failure and three retries.\<close>

definition failed_session :: session where
  "failed_session = fresh_session\<lparr>status := ''error'', retryCount := Some 3\<rparr>"

definition failed_store :: system where
  "failed_store = empty_system\<lparr>sessions := [''s1'' \<mapsto> failed_session]\<rparr>"

text \<open>The session in the middle of an analysis, with one chunk accumulated.\<close>

definition analyzing_session :: session where
  "analyzing_session = fresh_session\<lparr>status := ''analyzing'', streamingContent := Some ''ab''\<rparr>"

text \<open>Three subscribers of the session: channels 1 and 3 accept writes, channel 2 is closed.\<close>

definition fanout_store :: system where
  "fanout_store =
     \<lparr>sessions = [''s1'' \<mapsto> analyzing_session],
      connections = [JStr ''s1'' \<mapsto> [1, 2, 3]],
      channels = [1 \<mapsto> open_channel, 2 \<mapsto> closed_channel, 3 \<mapsto> open_channel]\<rparr>"

text \<open>The session with its analysis completed, and a client's channel not yet subscribed.\<close>

definition completed_session :: session where
  "completed_session =
     fresh_session\<lparr>status := ''completed'',
       feedback := JObj [(''score'', JNum 8)], completedAt := Some 7\<rparr>"

definition completed_store :: system where
  "completed_store =
     \<lparr>sessions = [''s1'' \<mapsto> completed_session],
      connections = Map.empty,
      channels = [1 \<mapsto> open_channel]\<rparr>"

text \<open>The session with its expiry removed, as the store's edge-case test does.\<close>

definition unexpiring_store :: system where
  "unexpiring_store =
     \<lparr>sessions = [''s1'' \<mapsto> fresh_session\<lparr>expiresAt := None\<rparr>],
      connections = Map.empty,
      channels = [1 \<mapsto> open_channel]\<rparr>"

text \<open>The fresh session after one failed analysis, and after one retry request.\<close>

definition failed_once :: system where
  "failed_once = projr (broadcast 1 (JStr ''s1'') (ErrorOccurred (ErrorStr ''boom'') None) fresh_store)"

definition retried_once :: system where
  "retried_once = snd (projr (retry_route 2 (JStr ''s1'') failed_once))"

section \<open>Basic facts about the store and the registry\<close>

lemma valid_id_Some: "valid_id v = Some k \<longleftrightarrow> v = JStr k \<and> k \<noteq> []"
  by (cases v) (auto simp: valid_id_def)

lemma getSession_Some:
  "getSession st now v = Some s \<longleftrightarrow>
     (\<exists>k e. v = JStr k \<and> k \<noteq> [] \<and> sessions st k = Some s \<and> expiresAt s = Some e \<and> \<not> now > e)"
  by (cases v) (auto simp: getSession_def valid_id_def split: option.splits if_splits)

lemma updateSession_stored:
  "sessions st k = Some s \<Longrightarrow> k \<noteq> [] \<Longrightarrow>
   updateSession now (JStr k) upd st =
     (True, st\<lparr>sessions := (sessions st)(k \<mapsto> (upd s)\<lparr>sessionId := sessionId s, updatedAt := now\<rparr>)\<rparr>)"
  by (simp add: updateSession_def valid_id_def)

lemma updateSession_missing:
  "(case valid_id sid of None \<Rightarrow> True | Some k \<Rightarrow> sessions st k = None) \<Longrightarrow>
   updateSession now sid upd st = (False, st)"
  by (auto simp: updateSession_def split: option.splits)

lemma updateSession_frame:
  "connections (snd (updateSession now sid upd st)) = connections st"
  "channels (snd (updateSession now sid upd st)) = channels st"
  by (auto simp: updateSession_def split: option.splits)

lemma send_sessions: "send c m st = Inr st' \<Longrightarrow> sessions st' = sessions st"
  by (auto simp: send_def split: option.splits sum.splits)

lemma removeConnection_sessions: "sessions (removeConnection sid c st) = sessions st"
  by (auto simp: removeConnection_def split: option.splits)

lemma removeConnection_channels: "channels (removeConnection sid c st) = channels st"
  by (auto simp: removeConnection_def split: option.splits)

lemma deliver_returns: "\<exists>st'. deliver sid m cs st = Inr st'"
  by (induction cs arbitrary: st) (auto split: sum.splits)

lemma deliver_sessions: "deliver sid m cs st = Inr st' \<Longrightarrow> sessions st' = sessions st"
proof (induction cs arbitrary: st)
  case Nil
  then show ?case by simp
next
  case (Cons c cs)
  show ?case
  proof (cases "send c m st")
    case (Inl e)
    with Cons.prems have "deliver sid m cs (removeConnection sid c st) = Inr st'" by simp
    from Cons.IH [OF this] show ?thesis by (simp add: removeConnection_sessions)
  next
    case (Inr st1)
    with Cons.prems have "deliver sid m cs st1 = Inr st'" by simp
    from Cons.IH [OF this] send_sessions [OF Inr] show ?thesis by simp
  qed
qed

lemma broadcastToSession_returns:
  "\<exists>st'. broadcastToSession sid ev d st = Inr st' \<and> sessions st' = sessions st"
proof (cases "connections st sid")
  case None
  then show ?thesis by (simp add: broadcastToSession_def)
next
  case (Some cs)
  obtain st' where d: "deliver sid (formatSSE ev d) cs st = Inr st'"
    using deliver_returns by blast
  with Some deliver_sessions [OF d] show ?thesis by (simp add: broadcastToSession_def)
qed

lemma sessionExists_live:
  "sessionExists st now sid \<Longrightarrow>
   \<exists>k s e. sid = JStr k \<and> k \<noteq> [] \<and> sessions st k = Some s \<and> expiresAt s = Some e \<and> \<not> now > e"
  by (auto simp: sessionExists_def getSession_Some)

lemma getSession_live:
  "sessions st k = Some s \<Longrightarrow> k \<noteq> [] \<Longrightarrow> expiresAt s = Some e \<Longrightarrow> \<not> now > e \<Longrightarrow>
   getSession st now (JStr k) = Some s"
  by (simp add: getSession_def valid_id_def)

section \<open>The delivery loop\<close>

lemma accepts_writes_send:
  "send c m st = Inr st1 \<Longrightarrow> accepts_writes st1 r = accepts_writes st r"
  by (auto simp: send_def accepts_writes_def res_write_def split: option.splits if_splits)

lemma send_connections: "send c m st = Inr st1 \<Longrightarrow> connections st1 = connections st"
  by (auto simp: send_def split: option.splits sum.splits)

lemma send_other: "send c m st = Inr st1 \<Longrightarrow> r \<noteq> c \<Longrightarrow> channels st1 r = channels st r"
  by (auto simp: send_def split: option.splits sum.splits)

lemma send_accepting:
  "channels st r = Some ch \<Longrightarrow> accepts_writes st r \<Longrightarrow>
   send r m st = Inr (st\<lparr>channels := (channels st)(r \<mapsto> ch\<lparr>ch_written := ch_written ch @ [m]\<rparr>)\<rparr>)"
  by (simp add: send_def accepts_writes_def res_write_def)

lemma send_refusing: "\<not> accepts_writes st r \<Longrightarrow> \<exists>e. send r m st = Inl e"
  by (auto simp: send_def accepts_writes_def res_write_def split: option.splits)

lemma accepts_writes_removeConnection:
  "accepts_writes (removeConnection sid c st) r = accepts_writes st r"
  by (simp add: accepts_writes_def removeConnection_channels)

lemma registered_removeConnection:
  "registered (removeConnection sid c st) sid = registered st sid - {c}"
proof (cases "connections st sid")
  case None
  then show ?thesis by (simp add: registered_def removeConnection_def)
next
  case (Some cs)
  have "set (removeAll c cs) = set cs - {c}" by simp
  then show ?thesis
    using Some by (cases "removeAll c cs = []") (simp_all add: registered_def removeConnection_def)
qed

lemma registered_send: "send c m st = Inr st1 \<Longrightarrow> registered st1 sid = registered st sid"
  by (simp add: registered_def send_connections)

lemma deliver_written:
  "deliver sid m cs st = Inr st' \<Longrightarrow> accepts_writes st r \<Longrightarrow> channels st r = Some ch \<Longrightarrow>
   channels st' r = Some (ch\<lparr>ch_written := ch_written ch @ replicate (count_list cs r) m\<rparr>)"
proof (induction cs arbitrary: st ch)
  case Nil
  then show ?case by simp
next
  case (Cons c cs)
  show ?case
  proof (cases "c = r")
    case True
    let ?ch1 = "ch\<lparr>ch_written := ch_written ch @ [m]\<rparr>"
    let ?st1 = "st\<lparr>channels := (channels st)(r \<mapsto> ?ch1)\<rparr>"
    have s: "send r m st = Inr ?st1"
      using Cons.prems by (simp add: send_accepting)
    with Cons.prems True have d: "deliver sid m cs ?st1 = Inr st'" by simp
    have a: "accepts_writes ?st1 r"
      using accepts_writes_send [OF s] Cons.prems by simp
    have "channels ?st1 r = Some ?ch1" by simp
    from Cons.IH [OF d a this] True show ?thesis
      by (simp add: replicate_app_Cons_same)
  next
    case False
    show ?thesis
    proof (cases "send c m st")
      case (Inl e)
      with Cons.prems have d: "deliver sid m cs (removeConnection sid c st) = Inr st'" by simp
      from Cons.IH [OF d] Cons.prems False show ?thesis
        by (simp add: accepts_writes_removeConnection removeConnection_channels)
    next
      case (Inr st1)
      with Cons.prems have d: "deliver sid m cs st1 = Inr st'" by simp
      from Cons.IH [OF d] Cons.prems False accepts_writes_send [OF Inr] send_other [OF Inr]
      show ?thesis by simp
    qed
  qed
qed

lemma deliver_refused:
  "deliver sid m cs st = Inr st' \<Longrightarrow> \<not> accepts_writes st r \<Longrightarrow> channels st' r = channels st r"
proof (induction cs arbitrary: st)
  case Nil
  then show ?case by simp
next
  case (Cons c cs)
  show ?case
  proof (cases "send c m st")
    case (Inl e)
    with Cons.prems have d: "deliver sid m cs (removeConnection sid c st) = Inr st'" by simp
    from Cons.IH [OF d] Cons.prems show ?thesis
      by (simp add: accepts_writes_removeConnection removeConnection_channels)
  next
    case (Inr st1)
    with Cons.prems send_refusing [of st r m] have "c \<noteq> r" by auto
    moreover from Inr Cons.prems have d: "deliver sid m cs st1 = Inr st'" by simp
    ultimately show ?thesis
      using Cons.IH [OF d] Cons.prems accepts_writes_send [OF Inr] send_other [OF Inr]
      by simp
  qed
qed

lemma deliver_keeps:
  "deliver sid m cs st = Inr st' \<Longrightarrow> accepts_writes st r \<Longrightarrow> r \<in> registered st sid \<Longrightarrow>
   r \<in> registered st' sid"
proof (induction cs arbitrary: st)
  case Nil
  then show ?case by simp
next
  case (Cons c cs)
  show ?case
  proof (cases "send c m st")
    case (Inl e)
    have "c \<noteq> r"
    proof
      assume "c = r"
      with Cons.prems(2) Inl show False
        by (auto simp: send_def accepts_writes_def res_write_def split: option.splits)
    qed
    moreover from Inl Cons.prems have d: "deliver sid m cs (removeConnection sid c st) = Inr st'"
      by simp
    ultimately show ?thesis
      using Cons.IH [OF d] Cons.prems
      by (simp add: accepts_writes_removeConnection registered_removeConnection)
  next
    case (Inr st1)
    with Cons.prems have d: "deliver sid m cs st1 = Inr st'" by simp
    from Cons.IH [OF d] Cons.prems accepts_writes_send [OF Inr] registered_send [OF Inr]
    show ?thesis by simp
  qed
qed

lemma deliver_only_removes:
  "deliver sid m cs st = Inr st' \<Longrightarrow> registered st' sid \<subseteq> registered st sid"
proof (induction cs arbitrary: st)
  case Nil
  then show ?case by simp
next
  case (Cons c cs)
  show ?case
  proof (cases "send c m st")
    case (Inl e)
    with Cons.prems have d: "deliver sid m cs (removeConnection sid c st) = Inr st'" by simp
    from Cons.IH [OF d] show ?thesis
      by (auto simp: registered_removeConnection)
  next
    case (Inr st1)
    with Cons.prems have d: "deliver sid m cs st1 = Inr st'" by simp
    from Cons.IH [OF d] registered_send [OF Inr] show ?thesis by simp
  qed
qed

lemma deliver_drops:
  "deliver sid m cs st = Inr st' \<Longrightarrow> \<not> accepts_writes st r \<Longrightarrow> r \<in> set cs \<Longrightarrow>
   r \<notin> registered st' sid"
proof (induction cs arbitrary: st)
  case Nil
  then show ?case by simp
next
  case (Cons c cs)
  show ?case
  proof (cases "c = r")
    case True
    from send_refusing [OF Cons.prems(2), of m] obtain e where "send r m st = Inl e" ..
    with Cons.prems True have d: "deliver sid m cs (removeConnection sid r st) = Inr st'"
      by simp
    from deliver_only_removes [OF d] show ?thesis
      by (auto simp: registered_removeConnection)
  next
    case False
    with Cons.prems have mem: "r \<in> set cs" by simp
    show ?thesis
    proof (cases "send c m st")
      case (Inl e)
      with Cons.prems have d: "deliver sid m cs (removeConnection sid c st) = Inr st'" by simp
      from Cons.IH [OF d _ mem] Cons.prems show ?thesis
        by (simp add: accepts_writes_removeConnection)
    next
      case (Inr st1)
      with Cons.prems have d: "deliver sid m cs st1 = Inr st'" by simp
      from Cons.IH [OF d _ mem] Cons.prems accepts_writes_send [OF Inr] show ?thesis by simp
    qed
  qed
qed

lemma count_list_distinct: "distinct cs \<Longrightarrow> r \<in> set cs \<Longrightarrow> count_list cs r = 1"
  by (induction cs) (auto simp: count_list_0_iff)

lemma broadcastToSession_effect:
  "\<exists>st'. broadcastToSession sid ev d st = Inr st'
     \<and> sessions st' = sessions st
     \<and> (\<forall>cs r ch. connections st sid = Some cs \<longrightarrow> distinct cs \<longrightarrow> r \<in> set cs \<longrightarrow>
            channels st r = Some ch \<longrightarrow> ch_writable ch \<and> \<not> ch_ended ch \<longrightarrow>
            channels st' r = Some (ch\<lparr>ch_written := ch_written ch @ [formatSSE ev d]\<rparr>)
            \<and> r \<in> registered st' sid)"
proof (cases "connections st sid")
  case None
  then show ?thesis by (simp add: broadcastToSession_def)
next
  case (Some cs)
  let ?m = "formatSSE ev d"
  obtain st' where d: "deliver sid ?m cs st = Inr st'"
    using deliver_returns by blast
  have b: "broadcastToSession sid ev d st = Inr st'"
    using Some d by (simp add: broadcastToSession_def)
  have "channels st' r = Some (ch\<lparr>ch_written := ch_written ch @ [?m]\<rparr>) \<and> r \<in> registered st' sid"
    if "distinct cs" and r: "r \<in> set cs" and ch: "channels st r = Some ch"
      and w: "ch_writable ch \<and> \<not> ch_ended ch" for r ch
  proof -
    from ch w have a: "accepts_writes st r" by (simp add: accepts_writes_def)
    have reg: "r \<in> registered st sid" using Some r by (simp add: registered_def)
    from deliver_written [OF d a ch] count_list_distinct [OF that(1) r] deliver_keeps [OF d a reg]
    show ?thesis by simp
  qed
  with b deliver_sessions [OF d] Some show ?thesis by auto
qed

lemma extendSession_frame:
  "connections (snd (extendSession now sid extra st)) = connections st"
  "channels (snd (extendSession now sid extra st)) = channels st"
  by (auto simp: extendSession_def split: option.splits)

lemma createConnection_accepted:
  assumes "fst (createConnection sid res st)" and "channels st res = Some ch"
  shows "ch_writable ch \<and> \<not> ch_ended ch"
    and "createConnection sid res st =
      (True, st\<lparr>connections := (connections st)(sid \<mapsto>
                  (case connections st sid of
                     None \<Rightarrow> [res]
                   | Some cs \<Rightarrow> (if res \<in> set cs then cs else cs @ [res]))),
                channels := (channels st)(res \<mapsto> ch\<lparr>ch_head := Some 200\<rparr>)\<rparr>)"
  using assms by (auto simp: createConnection_def split: if_splits)

lemma write_error_and_end_frame:
  "write_error_and_end res msg st = Inr (reply, st') \<Longrightarrow>
   sessions st' = sessions st \<and> connections st' = connections st"
  by (auto simp: write_error_and_end_def send_def split: sum.splits option.splits)

lemma write_error_and_end_view:
  "connections st2 = connections st1 \<Longrightarrow> channels st2 = channels st1 \<Longrightarrow>
   client_view (write_error_and_end res msg st2) = client_view (write_error_and_end res msg st1)"
  by (auto simp: client_view_def write_error_and_end_def send_def split: sum.splits option.splits)

lemma events_route_forbidden:
  "\<not> origin_allowed origin \<Longrightarrow>
   events_route now extra origin sid res st
     = Inr (Some (json_error 403 ''CORS Error: Origin not allowed'' ''CORS_NOT_ALLOWED''), st)"
  by (simp add: events_route_def)

lemma events_route_not_found:
  "origin_allowed origin \<Longrightarrow> k \<noteq> [] \<Longrightarrow> getSession st now (JStr k) = None \<Longrightarrow>
   events_route now extra origin (JStr k) res st
     = write_error_and_end res ''Session not found'' st"
  by (simp add: events_route_def)

section \<open>The retry ceiling is kept by callers that keep to it\<close>

lemma retry_ceiling_sessions: "sessions st' = sessions st \<Longrightarrow> retry_ceiling st' = retry_ceiling st"
  by (simp add: retry_ceiling_def)

lemma retry_ceiling_update:
  assumes "retry_ceiling st" and "\<forall>n. retryCount s' = Some n \<longrightarrow> n \<le> 3"
  shows "retry_ceiling (st\<lparr>sessions := (sessions st)(k \<mapsto> s')\<rparr>)"
  unfolding retry_ceiling_def
proof (intro allI impI)
  fix j s n
  assume j: "sessions (st\<lparr>sessions := (sessions st)(k \<mapsto> s')\<rparr>) j = Some s"
    and n: "retryCount s = Some n"
  show "n \<le> 3"
  proof (cases "j = k")
    case True
    with j have "s = s'" by simp
    with assms(2) n show ?thesis by blast
  next
    case False
    with j have "sessions st j = Some s" by simp
    with assms(1) n show ?thesis unfolding retry_ceiling_def by blast
  qed
qed

lemma retry_ceiling_stored:
  "retry_ceiling st \<Longrightarrow> sessions st k = Some s \<Longrightarrow> \<forall>m. retryCount s = Some m \<longrightarrow> m \<le> 3"
  unfolding retry_ceiling_def by blast

lemma updateSession_ceiling:
  assumes c: "retry_ceiling st"
    and u: "\<And>s n. \<forall>m. retryCount s = Some m \<longrightarrow> m \<le> 3 \<Longrightarrow> retryCount (upd s) = Some n \<Longrightarrow> n \<le> 3"
  shows "retry_ceiling (snd (updateSession now sid upd st))"
proof (cases "valid_id sid")
  case None
  with c show ?thesis by (simp add: updateSession_def)
next
  case (Some k)
  note id = this
  show ?thesis
  proof (cases "sessions st k")
    case None
    with id c show ?thesis by (simp add: updateSession_def)
  next
    case (Some s)
    let ?s' = "(upd s)\<lparr>sessionId := sessionId s, updatedAt := now\<rparr>"
    have "\<forall>n. retryCount (upd s) = Some n \<longrightarrow> n \<le> 3"
      using u [OF retry_ceiling_stored [OF c Some]] by blast
    then have "\<forall>n. retryCount ?s' = Some n \<longrightarrow> n \<le> 3" by simp
    from retry_ceiling_update [OF c this, of k] id Some show ?thesis
      by (simp add: updateSession_def)
  qed
qed

lemma updateStatus_ceiling:
  "retry_ceiling st \<Longrightarrow> retry_ceiling (snd (updateStatus now sid new st))"
  unfolding updateStatus_def by (rule updateSession_ceiling) simp_all

lemma broadcastToSession_ceiling:
  assumes "broadcastToSession sid ev d st = Inr st'" and "retry_ceiling st"
  shows "retry_ceiling st'"
proof -
  from broadcastToSession_returns [of sid ev d st]
  obtain st2 where a: "broadcastToSession sid ev d st = Inr st2"
    and b: "sessions st2 = sessions st"
    by blast
  from a assms(1) have "st2 = st'" by simp
  with retry_ceiling_sessions [OF b] assms(2) show ?thesis by simp
qed

lemma extendSession_ceiling:
  assumes c: "retry_ceiling st"
  shows "retry_ceiling (snd (extendSession now sid extra st))"
proof (cases "valid_id sid")
  case None
  with c show ?thesis by (simp add: extendSession_def)
next
  case (Some k)
  note id = this
  show ?thesis
  proof (cases "getSession st now sid")
    case None
    with id c show ?thesis by (simp add: extendSession_def)
  next
    case (Some s)
    let ?s' = "s\<lparr>expiresAt := map_option (\<lambda>e. e + extra) (expiresAt s)\<rparr>"
    from Some id have "sessions st k = Some s"
      by (auto simp: getSession_def split: option.splits if_splits)
    from retry_ceiling_stored [OF c this]
    have "\<forall>n. retryCount ?s' = Some n \<longrightarrow> n \<le> 3" by simp
    from retry_ceiling_update [OF c this, of k] id Some show ?thesis
      by (simp add: extendSession_def)
  qed
qed

lemma createConnection_sessions: "sessions (snd (createConnection sid res st)) = sessions st"
  by (simp add: createConnection_def split: option.splits)

lemma broadcast_ceiling:
  assumes c: "retry_ceiling st" and w: "within_ceiling c" and r: "broadcast now sid c st = Inr st'"
  shows "retry_ceiling st'"
proof -
  have "\<exists>ev d stX. broadcastToSession sid ev d stX = Inr st' \<and> retry_ceiling stX"
  proof (cases c)
    case (UploadStarted fi)
    let ?fi = "case fi of None \<Rightarrow> empty_file_info | Some f \<Rightarrow> f"
    let ?stX = "snd (updateSession now sid (\<lambda>s. s\<lparr>fileInfo := Some ?fi\<rparr>)
                  (snd (updateStatus now sid ''uploading'' st)))"
    have "retry_ceiling ?stX"
      by (intro updateSession_ceiling updateStatus_ceiling c) auto
    moreover have "broadcastToSession sid ''upload.started'' (uploadStarted_data ?fi) ?stX = Inr st'"
      using r UploadStarted by (simp add: broadcastUploadStarted_def Let_def)
    ultimately show ?thesis by blast
  next
    case (UploadCompleted fi)
    let ?fi = "case fi of None \<Rightarrow> empty_file_info | Some f \<Rightarrow> f"
    let ?stX = "snd (updateSession now sid (\<lambda>s. s\<lparr>fileInfo := Some ?fi, uploadedAt := Some now\<rparr>)
                  (snd (updateStatus now sid ''uploaded'' st)))"
    have "retry_ceiling ?stX"
      by (intro updateSession_ceiling updateStatus_ceiling c) auto
    moreover have "broadcastToSession sid ''upload.completed'' (uploadCompleted_data now ?fi) ?stX
        = Inr st'"
      using r UploadCompleted by (simp add: broadcastUploadCompleted_def Let_def)
    ultimately show ?thesis by blast
  next
    case ExtractionStarted
    let ?stX = "snd (updateStatus now sid ''extracting'' st)"
    have "retry_ceiling ?stX"
      by (intro updateStatus_ceiling c)
    moreover have "broadcastToSession sid ''extraction.started'' extractionStarted_data ?stX = Inr st'"
      using r ExtractionStarted by (simp add: broadcastExtractionStarted_def Let_def)
    ultimately show ?thesis by blast
  next
    case (ExtractionCompleted er)
    let ?er = "case er of None \<Rightarrow> empty_extraction_result | Some r \<Rightarrow> r"
    let ?ei = "extraction_info_of ?er"
    let ?stX = "snd (updateSession now sid
                  (\<lambda>s. s\<lparr>extractedText := er_text ?er, extractionInfo := Some ?ei\<rparr>)
                  (snd (updateStatus now sid ''extracted'' st)))"
    have "retry_ceiling ?stX"
      by (intro updateSession_ceiling updateStatus_ceiling c) auto
    moreover have "broadcastToSession sid ''extraction.completed'' (extractionCompleted_data ?ei) ?stX
        = Inr st'"
      using r ExtractionCompleted by (simp add: broadcastExtractionCompleted_def Let_def)
    ultimately show ?thesis by blast
  next
    case AnalysisStarted
    let ?stX = "snd (updateStatus now sid ''analyzing'' st)"
    have "retry_ceiling ?stX"
      by (intro updateStatus_ceiling c)
    moreover have "broadcastToSession sid ''analysis.started'' analysisStarted_data ?stX = Inr st'"
      using r AnalysisStarted by (simp add: broadcastAnalysisStarted_def Let_def)
    ultimately show ?thesis by blast
  next
    case (AnalysisStreaming content md)
    let ?md = "case md of None \<Rightarrow> empty_metadata | Some m \<Rightarrow> m"
    let ?stX = "case getSession st now sid of
                  None \<Rightarrow> st
                | Some session \<Rightarrow>
                    snd (updateSession now sid
                      (\<lambda>s. s\<lparr>streamingContent := Some (str_or (streamingContent session) [] @ content),
                             lastStreamUpdate := Some now\<rparr>) st)"
    have "retry_ceiling ?stX"
    proof (cases "getSession st now sid")
      case None
      with c show ?thesis by simp
    next
      case (Some session)
      have "retry_ceiling (snd (updateSession now sid
                      (\<lambda>s. s\<lparr>streamingContent := Some (str_or (streamingContent session) [] @ content),
                             lastStreamUpdate := Some now\<rparr>) st))"
        by (intro updateSession_ceiling c) auto
      with Some show ?thesis by simp
    qed
    moreover have "broadcastToSession sid ''analysis.streaming''
        (analysisStreaming_data content ?md) ?stX = Inr st'"
      using r AnalysisStreaming
      by (cases "getSession st now sid") (simp_all add: broadcastAnalysisStreaming_def Let_def)
    ultimately show ?thesis by blast
  next
    case (AnalysisCompleted fb)
    let ?fb = "if fb = JUndefined then JObj [] else fb"
    let ?stX = "snd (updateSession now sid
                  (\<lambda>s. s\<lparr>feedback := ?fb, completedAt := Some now, streamingContent := None\<rparr>)
                  (snd (updateStatus now sid ''completed'' st)))"
    have "retry_ceiling ?stX"
      by (intro updateSession_ceiling updateStatus_ceiling c) auto
    moreover have "broadcastToSession sid ''analysis.completed'' (analysisCompleted_data now ?fb) ?stX
        = Inr st'"
      using r AnalysisCompleted by (simp add: broadcastAnalysisCompleted_def Let_def)
    ultimately show ?thesis by blast
  next
    case (ErrorOccurred e opts)
    let ?opts = "case opts of None \<Rightarrow> empty_options | Some given \<Rightarrow> given"
    let ?msg = "error_message e"
    let ?code = "str_or (or_str (error_code e) (opt_code ?opts)) ''UNKNOWN_ERROR''"
    let ?stX = "snd (updateSession now sid
                  (\<lambda>s. s\<lparr>lastError := Some ?msg, errorCode := Some ?code,
                         retryCount := Some (or_int (opt_retryCount ?opts) 0)\<rparr>)
                  (snd (updateStatus now sid ''error'' st)))"
    have le: "or_int (opt_retryCount ?opts) 0 \<le> 3"
      using w ErrorOccurred
      by (cases opts) (auto simp: or_int_def empty_options_def split: option.splits)
    have "retry_ceiling ?stX"
      by (intro updateSession_ceiling updateStatus_ceiling c) (use le in auto)
    moreover have "broadcastToSession sid ''error.occurred''
        (errorOccurred_data ?msg ?code ?opts) ?stX = Inr st'"
      using r ErrorOccurred by (simp add: broadcastError_def Let_def)
    ultimately show ?thesis by blast
  next
    case (RetryStarted n stage)
    let ?stage = "case stage of None \<Rightarrow> ''analysis'' | Some g \<Rightarrow> g"
    let ?stX = "snd (updateSession now sid
                  (\<lambda>s. s\<lparr>retryCount := Some n, status := ''retrying''\<rparr>) st)"
    have le: "n \<le> 3" using w RetryStarted by simp
    have "retry_ceiling ?stX"
      by (intro updateSession_ceiling c) (use le in auto)
    moreover have "broadcastToSession sid ''retry.started'' (retryStarted_data n ?stage) ?stX
        = Inr st'"
      using r RetryStarted by (simp add: broadcastRetryStarted_def Let_def)
    ultimately show ?thesis by blast
  qed
  then show ?thesis
    using broadcastToSession_ceiling by blast
qed

lemma retry_route_ceiling:
  assumes c: "retry_ceiling st" and r: "retry_route now sid st = Inr (rsp, st')"
  shows "retry_ceiling st'"
proof (cases "\<not> truthy sid \<or> \<not> is_string sid")
  case True
  with r c show ?thesis by (simp add: retry_route_def)
next
  case False
  note id = this
  show ?thesis
  proof (cases "getSession st now sid")
    case None
    with id r c show ?thesis by (simp add: retry_route_def)
  next
    case (Some session)
    note live = this
    show ?thesis
    proof (cases "status session \<noteq> ''error''")
      case True
      with id live r c show ?thesis by (simp add: retry_route_def)
    next
      case False
      note failed = this
      let ?n = "or_int (retryCount session) 0 + 1"
      show ?thesis
      proof (cases "?n > 3")
        case True
        with id live failed r c show ?thesis by (simp add: retry_route_def Let_def)
      next
        case False
        let ?st1 = "snd (updateSession now sid
                      (\<lambda>s. s\<lparr>status := ''retrying'', retryCount := Some ?n, lastError := None\<rparr>)
                      st)"
        have c1: "retry_ceiling ?st1"
          by (intro updateSession_ceiling c) (use False in auto)
        from id live failed False r
        have "(case broadcastRetryStarted now sid ?n None ?st1 of
                 Inl e \<Rightarrow> Inl e
               | Inr st2 \<Rightarrow>
                   Inr (Response 200
                          (JObj [(''success'', JBool True),
                                 (''message'', JStr ''Retry initiated''),
                                 (''sessionId'', sid),
                                 (''retryCount'', JNum ?n)]),
                        st2)) = Inr (rsp, st')"
          by (simp add: retry_route_def Let_def)
        then have "broadcast now sid (RetryStarted ?n None) ?st1 = Inr st'"
          by (cases "broadcastRetryStarted now sid ?n None ?st1") simp_all
        moreover have "within_ceiling (RetryStarted ?n None)"
          using False by simp
        ultimately show ?thesis
          using broadcast_ceiling [OF c1] by blast
      qed
    qed
  qed
qed

lemma write_error_and_end_ceiling:
  assumes "write_error_and_end res msg st = Inr (reply, st')" and "retry_ceiling st"
  shows "retry_ceiling st'"
proof -
  from write_error_and_end_frame [OF assms(1)] have "sessions st' = sessions st" by simp
  from retry_ceiling_sessions [OF this] assms(2) show ?thesis by simp
qed

lemma events_route_ceiling:
  assumes c: "retry_ceiling st" and r: "events_route now extra origin sid res st = Inr (reply, st')"
  shows "retry_ceiling st'"
proof (cases "origin_allowed origin")
  case False
  with r c show ?thesis by (simp add: events_route_def)
next
  case True
  note allowed = this
  show ?thesis
  proof (cases "\<not> truthy sid \<or> \<not> is_string sid")
    case True
    with allowed r have "write_error_and_end res ''Invalid session ID'' st = Inr (reply, st')"
      by (simp add: events_route_def)
    from write_error_and_end_ceiling [OF this c] show ?thesis .
  next
    case False
    note id = this
    show ?thesis
    proof (cases "getSession st now sid")
      case None
      with allowed id r have "write_error_and_end res ''Session not found'' st = Inr (reply, st')"
        by (simp add: events_route_def)
      from write_error_and_end_ceiling [OF this c] show ?thesis .
    next
      case (Some session)
      note live = this
      obtain ok st1 where cc: "createConnection sid res st = (ok, st1)"
        by (cases "createConnection sid res st")
      have "sessions st1 = sessions st"
        using createConnection_sessions [of sid res st] cc by simp
      from retry_ceiling_sessions [OF this] c have c1: "retry_ceiling st1" by simp
      show ?thesis
      proof (cases ok)
        case False
        with allowed id live cc r
        have "write_error_and_end res ''SSE connection failed'' st1 = Inr (reply, st')"
          by (simp add: events_route_def)
        from write_error_and_end_ceiling [OF this c1] show ?thesis .
      next
        case True
        let ?b = "if status session = ''completed'' \<and> truthy (feedback session)
                  then broadcastToSession sid ''analysis.completed''
                         (completed_snapshot now session) st1
                  else broadcastToSession sid ''session.status'' (status_snapshot session) st1"
        from True allowed id live cc r
        have e: "(case ?b of Inl e \<Rightarrow> Inl e
                  | Inr st2 \<Rightarrow> Inr (None, snd (extendSession now sid extra st2)))
                 = Inr (reply, st')"
          by (simp add: events_route_def)
        then obtain st2 where b: "?b = Inr st2"
          and s: "st' = snd (extendSession now sid extra st2)"
          by (cases ?b) auto
        from b c1 have "retry_ceiling st2"
          by (auto split: if_splits dest: broadcastToSession_ceiling)
        with s show ?thesis by (simp add: extendSession_ceiling)
      qed
    qed
  qed
qed

lemma reachable_fresh_store: "reachable fresh_store"
  unfolding fresh_store_def
  by (rule r_create [OF r_init]) (simp add: empty_system_def)

section \<open>The retry endpoint\<close>

text \<open>
  C1 (retry ceiling). For a session that the store returns for \<open>sessionId\<close>, whose status
  is \<open>error\<close> and whose \<open>retryCount\<close> is already 3, the retry request is answered with
  HTTP 400 and the code \<open>MAX_RETRIES_EXCEEDED\<close>, and the handler returns the state it was
  given: \<open>retryCount\<close> stays 3 and the status stays \<open>error\<close>.
\<close>

theorem retry_max_retries_rejected:
  assumes "getSession st now sid = Some s"
    and "status s = ''error''"
    and "retryCount s = Some 3"
  shows "\<exists>body. retry_route now sid st = Inr (Response 400 body, st)
           \<and> get_prop body ''code'' = JStr ''MAX_RETRIES_EXCEEDED''"
proof -
  from assms(1) have "truthy sid" "is_string sid"
    by (auto simp: getSession_Some)
  with assms show ?thesis
    by (simp add: retry_route_def json_error_def or_int_def)
qed

theorem retry_max_retries_rejected_witness:
  "getSession failed_store 5 (JStr ''s1'') = Some failed_session
   \<and> status failed_session = ''error''
   \<and> retryCount failed_session = Some 3
   \<and> (\<exists>body. retry_route 5 (JStr ''s1'') failed_store = Inr (Response 400 body, failed_store)
           \<and> get_prop body ''code'' = JStr ''MAX_RETRIES_EXCEEDED'')"
proof -
  have g: "getSession failed_store 5 (JStr ''s1'') = Some failed_session"
    by (simp add: getSession_def valid_id_def failed_store_def failed_session_def
        fresh_session_def new_session_def empty_system_def)
  have s: "status failed_session = ''error''" by (simp add: failed_session_def)
  have r: "retryCount failed_session = Some 3" by (simp add: failed_session_def)
  from retry_max_retries_rejected [OF g s r] g s r show ?thesis by blast
qed

text \<open>
  C2 (retry precondition). For a session that exists and has not expired (the store
  returns it) and whose status is anything but \<open>error\<close>, the retry request is answered
  with HTTP 400 and the code \<open>INVALID_SESSION_STATE\<close>, and the handler returns the state
  it was given: \<open>retryCount\<close> and status are unchanged.
\<close>

theorem retry_rejected_unless_error:
  assumes "getSession st now sid = Some s"
    and "status s \<noteq> ''error''"
  shows "\<exists>body. retry_route now sid st = Inr (Response 400 body, st)
           \<and> get_prop body ''code'' = JStr ''INVALID_SESSION_STATE''"
proof -
  from assms(1) have "truthy sid" "is_string sid"
    by (auto simp: getSession_Some)
  with assms show ?thesis
    by (simp add: retry_route_def json_error_def)
qed

theorem retry_rejected_unless_error_witness:
  "getSession fresh_store 5 (JStr ''s1'') = Some fresh_session
   \<and> status fresh_session \<noteq> ''error''
   \<and> (\<exists>body. retry_route 5 (JStr ''s1'') fresh_store = Inr (Response 400 body, fresh_store)
           \<and> get_prop body ''code'' = JStr ''INVALID_SESSION_STATE'')"
proof -
  have g: "getSession fresh_store 5 (JStr ''s1'') = Some fresh_session"
    by (simp add: getSession_def valid_id_def fresh_store_def createSession_def
        fresh_session_def new_session_def empty_system_def)
  have s: "status fresh_session \<noteq> ''error''"
    by (simp add: fresh_session_def new_session_def)
  from retry_rejected_unless_error [OF g s] g s show ?thesis by blast
qed

section \<open>The broadcaster's effect on the session\<close>

text \<open>
  C5 (analysis completed). For a session that exists (the store's \<open>exists\<close> answers true
  for \<open>sessionId\<close>), \<open>broadcastAnalysisCompleted(sessionId, feedback)\<close> returns, and
  afterwards the session's status is \<open>completed\<close>, its \<open>feedback\<close> is the feedback passed
  (the default \<open>{}\<close> when it is left out), its \<open>streamingContent\<close> is cleared, and
  \<open>completedAt\<close> is the time of the call.
\<close>

theorem analysisCompleted_effect:
  assumes "sessionExists st now sid"
  shows "\<exists>st' s'. broadcastAnalysisCompleted now sid fb st = Inr st'
           \<and> getSession st' now sid = Some s'
           \<and> status s' = ''completed''
           \<and> feedback s' = (if fb = JUndefined then JObj [] else fb)
           \<and> streamingContent s' = None
           \<and> completedAt s' = Some now"
proof -
  from sessionExists_live [OF assms] obtain k s e where sid: "sid = JStr k" and k: "k \<noteq> []"
    and stored: "sessions st k = Some s" and e: "expiresAt s = Some e" "\<not> now > e"
    by blast
  let ?fb = "if fb = JUndefined then JObj [] else fb"
  let ?st1 = "snd (updateStatus now (JStr k) ''completed'' st)"
  let ?st2 = "snd (updateSession now (JStr k)
                (\<lambda>s. s\<lparr>feedback := ?fb, completedAt := Some now, streamingContent := None\<rparr>) ?st1)"
  let ?s1 = "s\<lparr>status := ''completed'', sessionId := sessionId s, updatedAt := now\<rparr>"
  let ?s2 = "s\<lparr>status := ''completed'', sessionId := sessionId s, updatedAt := now,
               feedback := ?fb, completedAt := Some now, streamingContent := None\<rparr>"
  have s1: "sessions ?st1 k = Some ?s1"
    using stored k by (simp add: updateStatus_def updateSession_stored)
  have s2: "sessions ?st2 k = Some ?s2"
    using k by (simp add: updateSession_stored [OF s1])
  obtain st' where b: "broadcastToSession (JStr k) ''analysis.completed''
        (analysisCompleted_data now ?fb) ?st2 = Inr st'" and f: "sessions st' = sessions ?st2"
    using broadcastToSession_returns by blast
  have r: "broadcastAnalysisCompleted now sid fb st = Inr st'"
    using b sid by (simp add: broadcastAnalysisCompleted_def Let_def)
  have "sessions st' k = Some ?s2" using f s2 by simp
  from getSession_live [OF this k, of e now] e sid
  have g: "getSession st' now sid = Some ?s2" by simp
  from r g show ?thesis
    by (intro exI [of _ st'] exI [of _ ?s2]) simp
qed

theorem analysisCompleted_effect_witness:
  "sessionExists fanout_store 7 (JStr ''s1'')
   \<and> (\<exists>st' s'. broadcastAnalysisCompleted 7 (JStr ''s1'') (JObj [(''score'', JNum 8)])
                   fanout_store = Inr st'
           \<and> getSession st' 7 (JStr ''s1'') = Some s'
           \<and> status s' = ''completed''
           \<and> feedback s' = JObj [(''score'', JNum 8)]
           \<and> streamingContent s' = None
           \<and> completedAt s' = Some 7)"
proof -
  have g: "sessionExists fanout_store 7 (JStr ''s1'')"
    by (simp add: sessionExists_def getSession_def valid_id_def fanout_store_def
        analyzing_session_def fresh_session_def new_session_def)
  from analysisCompleted_effect [OF g, of "JObj [(''score'', JNum 8)]"] g
  show ?thesis by simp
qed

section \<open>Fan-out\<close>

text \<open>
  C8 (fan-out). For a session with the registered channels \<open>cs\<close> (a set: no channel
  twice), broadcasting one event returns, and every registered channel that accepts the
  write has exactly the one formatted message \<open>formatSSE ev d\<close> appended and stays
  registered, whatever happens to the others; every registered channel whose write fails
  is left as it was and is removed from the registry. With \<open>n\<close> channels that all accept
  the write, all \<open>n\<close> receive the same message.
\<close>

theorem fan_out:
  assumes "connections st sid = Some cs" and "distinct cs"
  shows "\<exists>st'. broadcastToSession sid ev d st = Inr st'
           \<and> (\<forall>r\<in>set cs. \<forall>ch. channels st r = Some ch \<longrightarrow>
                 (if ch_writable ch \<and> \<not> ch_ended ch
                  then channels st' r = Some (ch\<lparr>ch_written := ch_written ch @ [formatSSE ev d]\<rparr>)
                       \<and> r \<in> registered st' sid
                  else channels st' r = Some ch \<and> r \<notin> registered st' sid))"
proof -
  let ?m = "formatSSE ev d"
  obtain st' where d: "deliver sid ?m cs st = Inr st'"
    using deliver_returns by blast
  have b: "broadcastToSession sid ev d st = Inr st'"
    using assms(1) d by (simp add: broadcastToSession_def)
  have "if ch_writable ch \<and> \<not> ch_ended ch
        then channels st' r = Some (ch\<lparr>ch_written := ch_written ch @ [?m]\<rparr>)
             \<and> r \<in> registered st' sid
        else channels st' r = Some ch \<and> r \<notin> registered st' sid"
    if r: "r \<in> set cs" and ch: "channels st r = Some ch" for r ch
  proof (cases "ch_writable ch \<and> \<not> ch_ended ch")
    case True
    with ch have a: "accepts_writes st r" by (simp add: accepts_writes_def)
    have reg: "r \<in> registered st sid" using assms(1) r by (simp add: registered_def)
    from deliver_written [OF d a ch] count_list_distinct [OF assms(2) r]
      deliver_keeps [OF d a reg] True
    show ?thesis by simp
  next
    case False
    with ch have a: "\<not> accepts_writes st r" by (simp add: accepts_writes_def)
    from deliver_refused [OF d a] deliver_drops [OF d a r] ch False
    show ?thesis by simp
  qed
  with b show ?thesis by blast
qed

theorem fan_out_witness:
  "connections fanout_store (JStr ''s1'') = Some [1, 2, 3] \<and> distinct [1, 2, 3 :: nat]
   \<and> (\<exists>st'. broadcastToSession (JStr ''s1'') ''analysis.started'' analysisStarted_data
               fanout_store = Inr st'
         \<and> channels st' 1
             = Some (open_channel\<lparr>ch_written := [formatSSE ''analysis.started'' analysisStarted_data]\<rparr>)
         \<and> 1 \<in> registered st' (JStr ''s1'')
         \<and> channels st' 2 = Some closed_channel
         \<and> 2 \<notin> registered st' (JStr ''s1'')
         \<and> channels st' 3
             = Some (open_channel\<lparr>ch_written := [formatSSE ''analysis.started'' analysisStarted_data]\<rparr>)
         \<and> 3 \<in> registered st' (JStr ''s1''))"
proof -
  have c: "connections fanout_store (JStr ''s1'') = Some [1, 2, 3]"
    by (simp add: fanout_store_def)
  have d: "distinct [1, 2, 3 :: nat]" by simp
  from fan_out [OF c d, of "''analysis.started''" analysisStarted_data]
  obtain st' where b: "broadcastToSession (JStr ''s1'') ''analysis.started'' analysisStarted_data
        fanout_store = Inr st'"
    and all: "\<forall>r\<in>set [1, 2, 3]. \<forall>ch. channels fanout_store r = Some ch \<longrightarrow>
                 (if ch_writable ch \<and> \<not> ch_ended ch
                  then channels st' r = Some (ch\<lparr>ch_written := ch_written ch
                          @ [formatSSE ''analysis.started'' analysisStarted_data]\<rparr>)
                       \<and> r \<in> registered st' (JStr ''s1'')
                  else channels st' r = Some ch \<and> r \<notin> registered st' (JStr ''s1''))"
    by blast
  have c1: "channels fanout_store 1 = Some open_channel"
    and c2: "channels fanout_store 2 = Some closed_channel"
    and c3: "channels fanout_store 3 = Some open_channel"
    by (simp_all add: fanout_store_def)
  from all c1 have r1: "channels st' 1
        = Some (open_channel\<lparr>ch_written := [formatSSE ''analysis.started'' analysisStarted_data]\<rparr>)
      \<and> 1 \<in> registered st' (JStr ''s1'')"
    by (simp add: open_channel_def)
  from all c2 have r2: "channels st' 2 = Some closed_channel \<and> 2 \<notin> registered st' (JStr ''s1'')"
    by (simp add: closed_channel_def)
  from all c3 have r3: "channels st' 3
        = Some (open_channel\<lparr>ch_written := [formatSSE ''analysis.started'' analysisStarted_data]\<rparr>)
      \<and> 3 \<in> registered st' (JStr ''s1'')"
    by (simp add: open_channel_def)
  from c d b r1 r2 r3 show ?thesis by blast
qed

section \<open>Error broadcasts\<close>

text \<open>
  C10 (error broadcast and the retry count). For a session that exists (the store's
  \<open>exists\<close> answers true for \<open>sessionId\<close>),
  \<open>broadcastError(sessionId, error, options)\<close> returns and leaves the session's
  \<open>retryCount\<close> at \<open>options.retryCount\<close> when that option is given and at 0 when it is
  left out (no \<open>options\<close>, or \<open>options\<close> without \<open>retryCount\<close>): the count the session
  had before is not kept.
\<close>

theorem broadcastError_retryCount:
  assumes "sessionExists st now sid"
  shows "\<exists>st' s'. broadcastError now sid err options_arg st = Inr st'
           \<and> getSession st' now sid = Some s'
           \<and> retryCount s' =
               Some (case options_arg of
                       None \<Rightarrow> 0
                     | Some opts \<Rightarrow> (case opt_retryCount opts of None \<Rightarrow> 0 | Some n \<Rightarrow> n))"
proof -
  from sessionExists_live [OF assms] obtain k s e where sid: "sid = JStr k" and k: "k \<noteq> []"
    and stored: "sessions st k = Some s" and e: "expiresAt s = Some e" "\<not> now > e"
    by blast
  let ?opts = "case options_arg of None \<Rightarrow> empty_options | Some given \<Rightarrow> given"
  let ?msg = "error_message err"
  let ?code = "str_or (or_str (error_code err) (opt_code ?opts)) ''UNKNOWN_ERROR''"
  let ?upd = "\<lambda>s. s\<lparr>lastError := Some ?msg, errorCode := Some ?code,
                 retryCount := Some (or_int (opt_retryCount ?opts) 0)\<rparr>"
  let ?st1 = "snd (updateStatus now (JStr k) ''error'' st)"
  let ?st2 = "snd (updateSession now (JStr k) ?upd ?st1)"
  let ?s1 = "s\<lparr>status := ''error'', sessionId := sessionId s, updatedAt := now\<rparr>"
  let ?s2 = "(?upd ?s1)\<lparr>sessionId := sessionId ?s1, updatedAt := now\<rparr>"
  have s1: "sessions ?st1 k = Some ?s1"
    using stored k by (simp add: updateStatus_def updateSession_stored)
  have s2: "sessions ?st2 k = Some ?s2"
    using k by (simp add: updateSession_stored [OF s1])
  have rc: "or_int (opt_retryCount ?opts) 0 =
      (case options_arg of
         None \<Rightarrow> 0
       | Some opts \<Rightarrow> (case opt_retryCount opts of None \<Rightarrow> 0 | Some n \<Rightarrow> n))"
    by (simp add: or_int_def empty_options_def split: option.splits)
  obtain st' where b: "broadcastToSession (JStr k) ''error.occurred''
        (errorOccurred_data ?msg ?code ?opts) ?st2 = Inr st'" and f: "sessions st' = sessions ?st2"
    using broadcastToSession_returns by blast
  have r: "broadcastError now sid err options_arg st = Inr st'"
    using b sid by (simp add: broadcastError_def Let_def)
  have "sessions st' k = Some ?s2" using f s2 by simp
  from getSession_live [OF this k, of e now] e sid
  have g: "getSession st' now sid = Some ?s2" by simp
  have "retryCount ?s2 = Some (or_int (opt_retryCount ?opts) 0)" by simp
  with rc r g show ?thesis
    by (intro exI [of _ st'] exI [of _ ?s2]) simp
qed

theorem broadcastError_retryCount_witness:
  "sessionExists failed_store 5 (JStr ''s1'')
   \<and> map_option retryCount (getSession failed_store 5 (JStr ''s1'')) = Some (Some 3)
   \<and> (\<exists>st' s'. broadcastError 5 (JStr ''s1'') (ErrorStr ''boom'') None failed_store = Inr st'
           \<and> getSession st' 5 (JStr ''s1'') = Some s'
           \<and> retryCount s' = Some 0)
   \<and> (\<exists>st' s'. broadcastError 5 (JStr ''s1'') (ErrorStr ''boom'')
                   (Some (empty_options\<lparr>opt_retryCount := Some 2\<rparr>)) failed_store = Inr st'
           \<and> getSession st' 5 (JStr ''s1'') = Some s'
           \<and> retryCount s' = Some 2)"
proof -
  have g: "getSession failed_store 5 (JStr ''s1'') = Some failed_session"
    by (simp add: getSession_def valid_id_def failed_store_def failed_session_def
        fresh_session_def new_session_def empty_system_def)
  then have x: "sessionExists failed_store 5 (JStr ''s1'')"
    by (simp add: sessionExists_def)
  from g have p: "map_option retryCount (getSession failed_store 5 (JStr ''s1'')) = Some (Some 3)"
    by (simp add: failed_session_def)
  from broadcastError_retryCount [OF x, of "ErrorStr ''boom''" None]
  have a: "\<exists>st' s'. broadcastError 5 (JStr ''s1'') (ErrorStr ''boom'') None failed_store = Inr st'
           \<and> getSession st' 5 (JStr ''s1'') = Some s'
           \<and> retryCount s' = Some 0"
    by simp
  from broadcastError_retryCount [OF x, of "ErrorStr ''boom''"
      "Some (empty_options\<lparr>opt_retryCount := Some 2\<rparr>)"]
  have b: "\<exists>st' s'. broadcastError 5 (JStr ''s1'') (ErrorStr ''boom'')
                   (Some (empty_options\<lparr>opt_retryCount := Some 2\<rparr>)) failed_store = Inr st'
           \<and> getSession st' 5 (JStr ''s1'') = Some s'
           \<and> retryCount s' = Some 2"
    by simp
  from x p a b show ?thesis by blast
qed

section \<open>Resilience of the broadcaster\<close>

lemma updateSession_absent:
  "session_missing st sid \<Longrightarrow> snd (updateSession now sid upd st) = st"
  by (simp add: session_missing_def updateSession_missing)

lemma getSession_absent: "session_missing st sid \<Longrightarrow> getSession st now sid = None"
  by (auto simp: session_missing_def getSession_def split: option.splits)

lemma broadcastToSession_absent:
  "\<exists>st'. broadcastToSession sid ev d st = Inr st'
         \<and> (session_missing st sid \<longrightarrow> sessions st' = sessions st)"
  using broadcastToSession_returns [of sid ev d st] by blast

text \<open>
  C6 (no throw on a bad session id). Every lifecycle method of the broadcaster, called with
  any \<open>sessionId\<close> value (\<open>null\<close>, \<open>undefined\<close>, a boolean, a number, the empty string, an
  id with no stored session, or a stored one) and further arguments of their documented
  types, returns a state and raises nothing; when no session is stored under the id, the
  sessions of the store are the same after the call.
\<close>

theorem broadcaster_never_throws:
  "\<exists>st'. broadcast now sid c st = Inr st'
         \<and> (session_missing st sid \<longrightarrow> sessions st' = sessions st)"
proof (cases "session_missing st sid")
  case True
  have "broadcast now sid c st = broadcastToSession sid ev d st \<Longrightarrow> ?thesis" for ev d
    using broadcastToSession_absent [of sid ev d st] by simp
  moreover have "\<exists>ev d. broadcast now sid c st = broadcastToSession sid ev d st"
    using True
    by (cases c)
      (auto simp: broadcastUploadStarted_def broadcastUploadCompleted_def
        broadcastExtractionStarted_def broadcastExtractionCompleted_def
        broadcastAnalysisStarted_def broadcastAnalysisStreaming_def
        broadcastAnalysisCompleted_def broadcastError_def broadcastRetryStarted_def
        updateStatus_def updateSession_absent getSession_absent Let_def)
  ultimately show ?thesis by blast
next
  case False
  have "\<exists>ev d st1. broadcast now sid c st = broadcastToSession sid ev d st1"
    by (cases c)
      (auto simp: broadcastUploadStarted_def broadcastUploadCompleted_def
        broadcastExtractionStarted_def broadcastExtractionCompleted_def
        broadcastAnalysisStarted_def broadcastAnalysisStreaming_def
        broadcastAnalysisCompleted_def broadcastError_def broadcastRetryStarted_def Let_def)
  then obtain ev d st1 where "broadcast now sid c st = broadcastToSession sid ev d st1"
    by blast
  with broadcastToSession_returns [of sid ev d st1] False show ?thesis by auto
qed

theorem broadcaster_never_throws_witness:
  "session_missing fresh_store JNull
   \<and> (\<exists>st'. broadcast 5 JNull (UploadStarted None) fresh_store = Inr st'
          \<and> sessions st' = sessions fresh_store)
   \<and> session_missing fresh_store (JStr [])
   \<and> (\<exists>st'. broadcast 5 (JStr []) (AnalysisStreaming ''chunk'' None) fresh_store = Inr st'
          \<and> sessions st' = sessions fresh_store)
   \<and> session_missing fresh_store (JStr ''non-existent-session'')
   \<and> (\<exists>st'. broadcast 5 (JStr ''non-existent-session'') (ErrorOccurred (ErrorStr ''boom'') None)
              fresh_store = Inr st'
          \<and> sessions st' = sessions fresh_store)"
proof -
  have m1: "session_missing fresh_store JNull"
    by (simp add: session_missing_def valid_id_def)
  have m2: "session_missing fresh_store (JStr [])"
    by (simp add: session_missing_def valid_id_def)
  have m3: "session_missing fresh_store (JStr ''non-existent-session'')"
    by (simp add: session_missing_def valid_id_def fresh_store_def createSession_def
        empty_system_def)
  from broadcaster_never_throws [of 5 JNull "UploadStarted None" fresh_store] m1
  have r1: "\<exists>st'. broadcast 5 JNull (UploadStarted None) fresh_store = Inr st'
          \<and> sessions st' = sessions fresh_store"
    by blast
  from broadcaster_never_throws [of 5 "JStr []" "AnalysisStreaming ''chunk'' None" fresh_store] m2
  have r2: "\<exists>st'. broadcast 5 (JStr []) (AnalysisStreaming ''chunk'' None) fresh_store = Inr st'
          \<and> sessions st' = sessions fresh_store"
    by blast
  from broadcaster_never_throws [of 5 "JStr ''non-existent-session''"
      "ErrorOccurred (ErrorStr ''boom'') None" fresh_store] m3
  have r3: "\<exists>st'. broadcast 5 (JStr ''non-existent-session'')
              (ErrorOccurred (ErrorStr ''boom'') None) fresh_store = Inr st'
          \<and> sessions st' = sessions fresh_store"
    by blast
  from m1 r1 m2 r2 m3 r3 show ?thesis by blast
qed

section \<open>Streaming\<close>

text \<open>
  C4 (streaming chunk). For a session that the store holds under \<open>sessionId\<close> and returns
  on lookup, and every chunk \<open>c\<close>, \<open>broadcastAnalysisStreaming(sessionId, c, metadata)\<close>
  returns; afterwards the session's status is what it was (the status \<open>streaming\<close> is
  only written into the payload), its \<open>streamingContent\<close> is the previous content (the
  empty string when there was none) followed by \<open>c\<close>, and the payload that every
  subscribed channel receives has \<open>c\<close> alone as its \<open>content\<close>.
\<close>

theorem analysisStreaming_effect:
  assumes "getSession st now sid = Some s"
  shows "\<exists>st' s' data. broadcastAnalysisStreaming now sid c md st = Inr st'
           \<and> getSession st' now sid = Some s'
           \<and> status s' = status s
           \<and> streamingContent s'
               = Some ((case streamingContent s of None \<Rightarrow> [] | Some acc \<Rightarrow> acc) @ c)
           \<and> get_prop data ''content'' = JStr c
           \<and> (\<forall>cs r ch. connections st sid = Some cs \<longrightarrow> distinct cs \<longrightarrow> r \<in> set cs \<longrightarrow>
                 channels st r = Some ch \<longrightarrow> ch_writable ch \<and> \<not> ch_ended ch \<longrightarrow>
                 channels st' r
                   = Some (ch\<lparr>ch_written := ch_written ch @ [(''analysis.streaming'', data)]\<rparr>))"
proof -
  from assms obtain k e where sid: "sid = JStr k" and k: "k \<noteq> []"
    and stored: "sessions st k = Some s" and e: "expiresAt s = Some e" "\<not> now > e"
    by (auto simp: getSession_Some)
  let ?md = "case md of None \<Rightarrow> empty_metadata | Some m \<Rightarrow> m"
  let ?data = "analysisStreaming_data c ?md"
  let ?cur = "str_or (streamingContent s) []"
  let ?upd = "\<lambda>s. s\<lparr>streamingContent := Some (?cur @ c), lastStreamUpdate := Some now\<rparr>"
  let ?st1 = "snd (updateSession now sid ?upd st)"
  let ?s1 = "(?upd s)\<lparr>sessionId := sessionId s, updatedAt := now\<rparr>"
  have cur: "?cur = (case streamingContent s of None \<Rightarrow> [] | Some acc \<Rightarrow> acc)"
    by (simp add: str_or_def or_str_def split: option.splits)
  have s1: "sessions ?st1 k = Some ?s1"
    using stored k sid by (simp add: updateSession_stored)
  have fr: "connections ?st1 = connections st" "channels ?st1 = channels st"
    by (simp_all add: updateSession_frame)
  from broadcastToSession_effect [of sid "''analysis.streaming''" ?data ?st1]
  obtain st' where b: "broadcastToSession sid ''analysis.streaming'' ?data ?st1 = Inr st'"
    and f: "sessions st' = sessions ?st1"
    and del: "\<forall>cs r ch. connections ?st1 sid = Some cs \<longrightarrow> distinct cs \<longrightarrow> r \<in> set cs \<longrightarrow>
            channels ?st1 r = Some ch \<longrightarrow> ch_writable ch \<and> \<not> ch_ended ch \<longrightarrow>
            channels st' r
              = Some (ch\<lparr>ch_written := ch_written ch @ [formatSSE ''analysis.streaming'' ?data]\<rparr>)
            \<and> r \<in> registered st' sid"
    by blast
  have r: "broadcastAnalysisStreaming now sid c md st = Inr st'"
    using b assms by (simp add: broadcastAnalysisStreaming_def Let_def)
  have g: "getSession st' now sid = Some ?s1"
    using f s1 sid k e by (simp add: getSession_def valid_id_def)
  have p: "get_prop ?data ''content'' = JStr c"
    by (simp add: analysisStreaming_data_def)
  from del fr have del': "\<forall>cs r ch. connections st sid = Some cs \<longrightarrow> distinct cs \<longrightarrow> r \<in> set cs \<longrightarrow>
            channels st r = Some ch \<longrightarrow> ch_writable ch \<and> \<not> ch_ended ch \<longrightarrow>
            channels st' r
              = Some (ch\<lparr>ch_written := ch_written ch @ [(''analysis.streaming'', ?data)]\<rparr>)"
    by (simp add: formatSSE_def)
  from r g p del' cur show ?thesis
    by (intro exI [of _ st'] exI [of _ ?s1] exI [of _ ?data]) simp
qed

theorem analysisStreaming_effect_witness:
  "getSession fanout_store 5 (JStr ''s1'') = Some analyzing_session
   \<and> (\<exists>st' s' data. broadcastAnalysisStreaming 5 (JStr ''s1'') ''cd'' None fanout_store = Inr st'
          \<and> getSession st' 5 (JStr ''s1'') = Some s'
          \<and> status s' = ''analyzing''
          \<and> streamingContent s' = Some ''abcd''
          \<and> get_prop data ''content'' = JStr ''cd''
          \<and> channels st' 1
               = Some (open_channel\<lparr>ch_written := [(''analysis.streaming'', data)]\<rparr>))"
proof -
  have g: "getSession fanout_store 5 (JStr ''s1'') = Some analyzing_session"
    by (simp add: getSession_def valid_id_def fanout_store_def analyzing_session_def
        fresh_session_def new_session_def)
  from analysisStreaming_effect [OF g, of "''cd''" None]
  obtain st' s' data where
    r: "broadcastAnalysisStreaming 5 (JStr ''s1'') ''cd'' None fanout_store = Inr st'"
    and g': "getSession st' 5 (JStr ''s1'') = Some s'"
    and s: "status s' = status analyzing_session"
    and c: "streamingContent s'
              = Some ((case streamingContent analyzing_session of None \<Rightarrow> [] | Some acc \<Rightarrow> acc)
                  @ ''cd'')"
    and p: "get_prop data ''content'' = JStr ''cd''"
    and del: "\<forall>cs r ch. connections fanout_store (JStr ''s1'') = Some cs \<longrightarrow> distinct cs \<longrightarrow>
                 r \<in> set cs \<longrightarrow> channels fanout_store r = Some ch \<longrightarrow>
                 ch_writable ch \<and> \<not> ch_ended ch \<longrightarrow>
                 channels st' r
                   = Some (ch\<lparr>ch_written := ch_written ch @ [(''analysis.streaming'', data)]\<rparr>)"
    by blast
  have "connections fanout_store (JStr ''s1'') = Some [1, 2, 3]"
    and "distinct [1, 2, 3 :: nat]" and "(1 :: nat) \<in> set [1, 2, 3]"
    and "channels fanout_store 1 = Some open_channel"
    and "ch_writable open_channel \<and> \<not> ch_ended open_channel"
    by (simp_all add: fanout_store_def open_channel_def)
  with del have
    "channels st' 1
       = Some (open_channel\<lparr>ch_written := ch_written open_channel @ [(''analysis.streaming'', data)]\<rparr>)"
    by blast
  then have d1: "channels st' 1
       = Some (open_channel\<lparr>ch_written := [(''analysis.streaming'', data)]\<rparr>)"
    by (simp add: open_channel_def)
  from s have s2: "status s' = ''analyzing''" by (simp add: analyzing_session_def)
  from c have c2: "streamingContent s' = Some ''abcd''" by (simp add: analyzing_session_def)
  from g r g' s2 c2 p d1 show ?thesis by blast
qed

section \<open>Subscription\<close>

text \<open>
  C7 (snapshot replay). For a subscription that succeeds (the origin is allowed, the store
  returns the session, the registry accepts the channel): the handler returns with the
  channel registered, and the message it has written to the new channel, before anything
  else is broadcast, is the event \<open>analysis.completed\<close> carrying the stored feedback when
  the session's status is \<open>completed\<close> and it has feedback, and the event
  \<open>session.status\<close> carrying the session's current status otherwise.
\<close>

theorem subscribe_replays_snapshot:
  assumes origin: "origin \<in> set allowedOrigins"
    and live: "getSession st now sid = Some s"
    and connected: "fst (createConnection sid res st)"
    and ch: "channels st res = Some ch"
    and reg: "case connections st sid of None \<Rightarrow> True | Some cs \<Rightarrow> distinct cs"
  shows "\<exists>st' ch' data. events_route now extra (Some origin) sid res st = Inr (None, st')
           \<and> res \<in> registered st' sid
           \<and> channels st' res = Some ch'
           \<and> (if status s = ''completed'' \<and> truthy (feedback s)
                then ch_written ch' = ch_written ch @ [(''analysis.completed'', data)]
                     \<and> get_prop data ''feedback'' = feedback s
                else ch_written ch' = ch_written ch @ [(''session.status'', data)]
                     \<and> get_prop data ''status'' = JStr (status s))"
proof -
  from live have id: "truthy sid" "is_string sid"
    by (auto simp: getSession_Some)
  from origin have allowed: "origin_allowed (Some origin)"
    by (simp add: origin_allowed_def)
  let ?cs1 = "case connections st sid of
                None \<Rightarrow> [res]
              | Some cs \<Rightarrow> (if res \<in> set cs then cs else cs @ [res])"
  let ?ch1 = "ch\<lparr>ch_head := Some 200\<rparr>"
  let ?st1 = "st\<lparr>connections := (connections st)(sid \<mapsto> ?cs1),
                channels := (channels st)(res \<mapsto> ?ch1)\<rparr>"
  have w: "ch_writable ch \<and> \<not> ch_ended ch"
    and cc: "createConnection sid res st = (True, ?st1)"
    using createConnection_accepted [OF connected ch] by simp_all
  have c1: "connections ?st1 sid = Some ?cs1" by simp
  have d1: "distinct ?cs1" using reg by (auto split: option.splits)
  have m1: "res \<in> set ?cs1" by (auto split: option.splits)
  have h1: "channels ?st1 res = Some ?ch1" by simp
  have w1: "ch_writable ?ch1 \<and> \<not> ch_ended ?ch1" using w by simp
  let ?done = "status s = ''completed'' \<and> truthy (feedback s)"
  let ?ev = "if ?done then ''analysis.completed'' else ''session.status''"
  let ?data = "if ?done then completed_snapshot now s else status_snapshot s"
  from broadcastToSession_effect [of sid ?ev ?data ?st1]
  obtain st2 where b: "broadcastToSession sid ?ev ?data ?st1 = Inr st2"
    and del: "\<forall>cs r ch. connections ?st1 sid = Some cs \<longrightarrow> distinct cs \<longrightarrow> r \<in> set cs \<longrightarrow>
            channels ?st1 r = Some ch \<longrightarrow> ch_writable ch \<and> \<not> ch_ended ch \<longrightarrow>
            channels st2 r = Some (ch\<lparr>ch_written := ch_written ch @ [formatSSE ?ev ?data]\<rparr>)
            \<and> r \<in> registered st2 sid"
    by blast
  from del c1 d1 m1 h1 w1
  have got: "channels st2 res = Some (?ch1\<lparr>ch_written := ch_written ?ch1 @ [formatSSE ?ev ?data]\<rparr>)
      \<and> res \<in> registered st2 sid"
    by blast
  let ?st' = "snd (extendSession now sid extra st2)"
  let ?ch' = "?ch1\<lparr>ch_written := ch_written ?ch1 @ [formatSSE ?ev ?data]\<rparr>"
  have route: "events_route now extra (Some origin) sid res st = Inr (None, ?st')"
  proof (cases ?done)
    case True
    with b have "broadcastToSession sid ''analysis.completed'' (completed_snapshot now s) ?st1
        = Inr st2" by simp
    with True allowed id live cc show ?thesis by (simp add: events_route_def)
  next
    case False
    with b have "broadcastToSession sid ''session.status'' (status_snapshot s) ?st1 = Inr st2"
      by simp
    with False allowed id live cc show ?thesis by (auto simp: events_route_def)
  qed
  have r': "res \<in> registered ?st' sid"
    using got by (simp add: registered_def extendSession_frame)
  have c': "channels ?st' res = Some ?ch'"
    using got by (simp add: extendSession_frame)
  have payload: "if ?done
      then ch_written ?ch' = ch_written ch @ [(''analysis.completed'', ?data)]
           \<and> get_prop ?data ''feedback'' = feedback s
      else ch_written ?ch' = ch_written ch @ [(''session.status'', ?data)]
           \<and> get_prop ?data ''status'' = JStr (status s)"
    by (simp add: formatSSE_def completed_snapshot_def status_snapshot_def)
  from route r' c' payload show ?thesis
    by (intro exI [of _ ?st'] exI [of _ ?ch'] exI [of _ ?data]) simp
qed

theorem subscribe_replays_snapshot_witness:
  "''http://localhost:5173'' \<in> set allowedOrigins
   \<and> getSession completed_store 5 (JStr ''s1'') = Some completed_session
   \<and> fst (createConnection (JStr ''s1'') 1 completed_store)
   \<and> channels completed_store 1 = Some open_channel
   \<and> connections completed_store (JStr ''s1'') = None
   \<and> (\<exists>st' ch' data.
          events_route 5 1000 (Some ''http://localhost:5173'') (JStr ''s1'') 1 completed_store
            = Inr (None, st')
          \<and> 1 \<in> registered st' (JStr ''s1'')
          \<and> channels st' 1 = Some ch'
          \<and> ch_written ch' = [(''analysis.completed'', data)]
          \<and> get_prop data ''feedback'' = JObj [(''score'', JNum 8)])"
proof -
  have o: "''http://localhost:5173'' \<in> set allowedOrigins"
    by (simp add: allowedOrigins_def)
  have g: "getSession completed_store 5 (JStr ''s1'') = Some completed_session"
    by (simp add: getSession_def valid_id_def completed_store_def completed_session_def
        fresh_session_def new_session_def)
  have c: "fst (createConnection (JStr ''s1'') 1 completed_store)"
    by (simp add: createConnection_def completed_store_def open_channel_def)
  have h: "channels completed_store 1 = Some open_channel"
    by (simp add: completed_store_def)
  have n: "connections completed_store (JStr ''s1'') = None"
    by (simp add: completed_store_def)
  then have r: "case connections completed_store (JStr ''s1'') of
                  None \<Rightarrow> True | Some cs \<Rightarrow> distinct cs"
    by simp
  have d: "status completed_session = ''completed'' \<and> truthy (feedback completed_session)"
    by (simp add: completed_session_def)
  from subscribe_replays_snapshot [OF o g c h r, of 1000] d
  have "\<exists>st' ch' data.
          events_route 5 1000 (Some ''http://localhost:5173'') (JStr ''s1'') 1 completed_store
            = Inr (None, st')
          \<and> 1 \<in> registered st' (JStr ''s1'')
          \<and> channels st' 1 = Some ch'
          \<and> ch_written ch' = [(''analysis.completed'', data)]
          \<and> get_prop data ''feedback'' = JObj [(''score'', JNum 8)]"
    by (simp add: open_channel_def completed_session_def)
  with o g c h n show ?thesis by blast
qed

section \<open>Expiry\<close>

text \<open>
  C9 (lazy expiry). A session that is stored under \<open>sessionId\<close> with an \<open>expiresAt\<close> in
  the past, or with no \<open>expiresAt\<close> at all, looks like a session that does not exist:
  \<open>get\<close> returns absent and \<open>exists\<close> returns false, as they do once the session is
  deleted; a subscription request for it gets the reply, the registrations and the channel
  contents it would get with the session deleted, and registers no connection. None of
  this deletes the session: the store is the same after the request.
\<close>

theorem expired_session_is_absent:
  assumes stored: "sessions st k = Some s" and k: "k \<noteq> []"
    and expired: "case expiresAt s of None \<Rightarrow> True | Some e \<Rightarrow> e < now"
  shows "getSession st now (JStr k) = None
       \<and> \<not> sessionExists st now (JStr k)
       \<and> getSession (snd (deleteSession (JStr k) st)) now (JStr k) = None
       \<and> client_view (events_route now extra origin (JStr k) res st)
           = client_view (events_route now extra origin (JStr k) res (snd (deleteSession (JStr k) st)))
       \<and> (\<forall>reply st'. events_route now extra origin (JStr k) res st = Inr (reply, st') \<longrightarrow>
             connections st' = connections st \<and> sessions st' = sessions st)"
proof -
  let ?gone = "snd (deleteSession (JStr k) st)"
  have g: "getSession st now (JStr k) = None"
    using stored k expired by (auto simp: getSession_def valid_id_def split: option.splits)
  then have e: "\<not> sessionExists st now (JStr k)"
    by (simp add: sessionExists_def)
  have del: "?gone = st\<lparr>sessions := (sessions st)(k := None)\<rparr>"
    using stored k by (simp add: deleteSession_def valid_id_def)
  have g': "getSession ?gone now (JStr k) = None"
    using k by (simp add: del getSession_def valid_id_def)
  have fr: "connections ?gone = connections st" "channels ?gone = channels st"
    by (simp_all add: del)
  have same: "client_view (events_route now extra origin (JStr k) res st)
           = client_view (events_route now extra origin (JStr k) res ?gone)"
  proof (cases "origin_allowed origin")
    case False
    show ?thesis
      by (simp add: events_route_forbidden [OF False] client_view_def fr)
  next
    case True
    show ?thesis
      by (simp only: events_route_not_found [OF True k g] events_route_not_found [OF True k g']
          write_error_and_end_view [OF fr])
  qed
  have frame: "connections st' = connections st \<and> sessions st' = sessions st"
    if r: "events_route now extra origin (JStr k) res st = Inr (reply, st')" for reply st'
  proof (cases "origin_allowed origin")
    case False
    from r show ?thesis
      by (simp add: events_route_forbidden [OF False])
  next
    case True
    from r have "write_error_and_end res ''Session not found'' st = Inr (reply, st')"
      by (simp only: events_route_not_found [OF True k g])
    from write_error_and_end_frame [OF this] show ?thesis by simp
  qed
  from g e g' same frame show ?thesis by blast
qed

theorem expired_session_is_absent_witness:
  "sessions fresh_store ''s1'' = Some fresh_session \<and> ''s1'' \<noteq> []
   \<and> expiresAt fresh_session = Some 1000
   \<and> getSession fresh_store 2000 (JStr ''s1'') = None
   \<and> \<not> sessionExists fresh_store 2000 (JStr ''s1'')
   \<and> sessions unexpiring_store ''s1'' = Some (fresh_session\<lparr>expiresAt := None\<rparr>)
   \<and> getSession unexpiring_store 5 (JStr ''s1'') = None
   \<and> \<not> sessionExists unexpiring_store 5 (JStr ''s1'')
   \<and> (\<exists>reply st'.
          events_route 5 1000 (Some ''http://localhost:5173'') (JStr ''s1'') 1 unexpiring_store
            = Inr (reply, st')
          \<and> connections st' = connections unexpiring_store
          \<and> sessions st' = sessions unexpiring_store)"
proof -
  have s1: "sessions fresh_store ''s1'' = Some fresh_session"
    by (simp add: fresh_store_def createSession_def fresh_session_def)
  have n: "''s1'' \<noteq> []" by simp
  have e1: "expiresAt fresh_session = Some 1000"
    by (simp add: fresh_session_def new_session_def)
  then have x1: "case expiresAt fresh_session of None \<Rightarrow> True | Some e \<Rightarrow> e < 2000"
    by simp
  from expired_session_is_absent [OF s1 n x1]
  have a1: "getSession fresh_store 2000 (JStr ''s1'') = None
      \<and> \<not> sessionExists fresh_store 2000 (JStr ''s1'')"
    by blast
  have s2: "sessions unexpiring_store ''s1'' = Some (fresh_session\<lparr>expiresAt := None\<rparr>)"
    by (simp add: unexpiring_store_def)
  have x2: "case expiresAt (fresh_session\<lparr>expiresAt := None\<rparr>) of
              None \<Rightarrow> True | Some e \<Rightarrow> e < 5"
    by simp
  note a2 = expired_session_is_absent [OF s2 n x2, of 1000 "Some ''http://localhost:5173''" 1]
  from a2 have g2: "getSession unexpiring_store 5 (JStr ''s1'') = None"
    and e2: "\<not> sessionExists unexpiring_store 5 (JStr ''s1'')"
    by blast+
  have o: "origin_allowed (Some ''http://localhost:5173'')"
    by (simp add: origin_allowed_def allowedOrigins_def)
  have "\<exists>reply st'.
          events_route 5 1000 (Some ''http://localhost:5173'') (JStr ''s1'') 1 unexpiring_store
            = Inr (reply, st')"
    unfolding events_route_not_found [OF o n g2]
    by (simp add: write_error_and_end_def send_def res_write_def unexpiring_store_def
        open_channel_def)
  then obtain reply st' where
    r: "events_route 5 1000 (Some ''http://localhost:5173'') (JStr ''s1'') 1 unexpiring_store
          = Inr (reply, st')"
    by blast
  with a2 have "connections st' = connections unexpiring_store
      \<and> sessions st' = sessions unexpiring_store"
    by blast
  with r s1 n e1 a1 s2 g2 e2 show ?thesis by blast
qed

section \<open>Retry ceiling\<close>

text \<open>
  C3, as the code has it. The broadcaster stores the retry count it is handed:
  on a freshly created session, \<open>broadcastRetryStarted(id, 4)\<close> leaves \<open>retryCount\<close> 4 and
  \<open>broadcastError(id, 'boom', {retryCount: 7})\<close> leaves \<open>retryCount\<close> 7, both above the
  ceiling of 3.
\<close>

theorem retry_ceiling_counterexample:
  "reachable fresh_store
   \<and> map_option retryCount
        (session_after (broadcastRetryStarted 5 (JStr ''s1'') 4 None fresh_store) ''s1'')
      = Some (Some 4)
   \<and> map_option retryCount
        (session_after
           (broadcastError 5 (JStr ''s1'') (ErrorStr ''boom'')
              (Some (empty_options\<lparr>opt_retryCount := Some 7\<rparr>)) fresh_store) ''s1'')
      = Some (Some 7)"
proof -
  have a: "map_option retryCount
        (session_after (broadcastRetryStarted 5 (JStr ''s1'') 4 None fresh_store) ''s1'')
      = Some (Some 4)"
    by (simp add: broadcastRetryStarted_def Let_def updateSession_def valid_id_def
        fresh_store_def createSession_def empty_system_def broadcastToSession_def
        session_after_def)
  have b: "map_option retryCount
        (session_after
           (broadcastError 5 (JStr ''s1'') (ErrorStr ''boom'')
              (Some (empty_options\<lparr>opt_retryCount := Some 7\<rparr>)) fresh_store) ''s1'')
      = Some (Some 7)"
    by (simp add: broadcastError_def Let_def updateStatus_def updateSession_def valid_id_def
        fresh_store_def createSession_def empty_system_def broadcastToSession_def
        session_after_def or_int_def empty_options_def)
  from reachable_fresh_store a b show ?thesis by blast
qed

text \<open>
  C3, amended. The ceiling is kept by the callers, not by the broadcaster or the store: in
  every state reached from the empty store by creating sessions (with no initial data),
  opening and subscribing channels, calling the retry endpoint, and calling the
  broadcaster's methods with a retry count of at most 3 (or none), no session has a
  \<open>retryCount\<close> above 3. The retry endpoint needs no such proviso: it never stores a count
  above 3.
\<close>

theorem retry_ceiling_invariant: "reachable st \<Longrightarrow> retry_ceiling st"
proof (induction rule: reachable.induct)
  case r_init
  show ?case by (simp add: retry_ceiling_def empty_system_def)
next
  case (r_create st k now ttl)
  have "\<forall>n. retryCount (new_session k now ttl) = Some n \<longrightarrow> n \<le> 3"
    by (simp add: new_session_def)
  from retry_ceiling_update [OF r_create.IH this] show ?case
    by (simp add: createSession_def)
next
  case (r_open st r ch)
  have "sessions (st\<lparr>channels := (channels st)(r \<mapsto> ch)\<rparr>) = sessions st" by simp
  from retry_ceiling_sessions [OF this] r_open.IH show ?case by simp
next
  case (r_subscribe st now extra origin sid res reply st')
  from events_route_ceiling [OF r_subscribe.IH r_subscribe.hyps(2)] show ?case .
next
  case (r_retry st now sid rsp st')
  from retry_route_ceiling [OF r_retry.IH r_retry.hyps(2)] show ?case .
next
  case (r_broadcast st c now sid st')
  from broadcast_ceiling [OF r_broadcast.IH r_broadcast.hyps(2) r_broadcast.hyps(3)]
  show ?case .
qed

theorem retry_ceiling_invariant_witness:
  "reachable retried_once \<and> retry_ceiling retried_once
   \<and> map_option retryCount (sessions retried_once ''s1'') = Some (Some 1)"
proof -
  have e1: "\<exists>st'. broadcast 1 (JStr ''s1'') (ErrorOccurred (ErrorStr ''boom'') None) fresh_store
              = Inr st'"
    by (simp add: broadcastError_def Let_def broadcastToSession_def updateStatus_def
        updateSession_def valid_id_def fresh_store_def createSession_def empty_system_def)
  then have b1: "broadcast 1 (JStr ''s1'') (ErrorOccurred (ErrorStr ''boom'') None) fresh_store
              = Inr failed_once"
    by (auto simp: failed_once_def)
  have r1: "reachable failed_once"
    by (rule r_broadcast [OF reachable_fresh_store _ b1]) simp
  have s1: "sessions failed_once ''s1''
      = Some (fresh_session\<lparr>status := ''error'', updatedAt := 1, lastError := Some ''boom'',
           errorCode := Some ''UNKNOWN_ERROR'', retryCount := Some 0\<rparr>)"
    by (simp add: failed_once_def broadcastError_def Let_def broadcastToSession_def
        updateStatus_def updateSession_def valid_id_def fresh_store_def createSession_def
        empty_system_def fresh_session_def new_session_def error_message_def error_code_def
        str_or_def or_str_def or_int_def empty_options_def)
  have c1: "connections failed_once = Map.empty"
    by (simp add: failed_once_def broadcastError_def Let_def broadcastToSession_def
        updateStatus_def updateSession_def valid_id_def fresh_store_def createSession_def
        empty_system_def)
  have e2: "\<exists>x. retry_route 2 (JStr ''s1'') failed_once = Inr x"
    by (simp add: retry_route_def getSession_def valid_id_def s1 fresh_session_def
        new_session_def or_int_def Let_def broadcastRetryStarted_def broadcastToSession_def
        updateSession_def c1)
  then obtain rsp st' where b2: "retry_route 2 (JStr ''s1'') failed_once = Inr (rsp, st')"
    by auto
  then have st': "st' = retried_once" by (simp add: retried_once_def)
  from r_retry [OF r1 b2] st' have r2: "reachable retried_once" by simp
  have s2: "map_option retryCount (sessions retried_once ''s1'') = Some (Some 1)"
    by (simp add: retried_once_def retry_route_def getSession_def valid_id_def s1
        fresh_session_def new_session_def or_int_def Let_def broadcastRetryStarted_def
        broadcastToSession_def updateSession_def c1)
  from retry_ceiling_invariant [OF r2] r2 s2 show ?thesis by blast
qed

end
